theory Spec2Isabelle
  imports Complex_Main "HOL-Library.Sublist" "HOL-Library.Multiset"
begin

section \<open>JavaScript values and row objects\<close>

text \<open>
  The two data sets are tabular: an array of row objects whose properties hold scalar
  values. \<open>JSON.parse\<close> yields null, booleans, finite numbers and strings; \<open>d3.csv\<close> yields
  strings only. \<open>JUndefined\<close> is what reading a missing property gives, \<open>JNaN\<close> is the
  number NaN, which arithmetic on \<open>undefined\<close> produces. A finite number is modelled by
  its exact value.
\<close>

datatype jsval = JUndefined | JNull | JBool bool | JNum rat | JNaN | JStr string

datatype error = TypeError

text \<open>
  A row object is its list of own properties in insertion order. Reading a property that
  is not there gives \<open>undefined\<close>; writing a property replaces the value in place or
  appends a new property.
\<close>

type_synonym jsobj = "(string \<times> jsval) list"

definition get :: "jsobj \<Rightarrow> string \<Rightarrow> jsval" where
  "get d k = (case map_of d k of None \<Rightarrow> JUndefined | Some v \<Rightarrow> v)"

fun put :: "string \<Rightarrow> jsval \<Rightarrow> jsobj \<Rightarrow> jsobj" where
  "put k v [] = [(k, v)]"
| "put k v (p # ps) = (if fst p = k then (k, v) # ps else p # put k v ps)"

text \<open>ToBoolean: the falsy scalars are undefined, null, false, 0, NaN and the empty string.\<close>

fun truthy :: "jsval \<Rightarrow> bool" where
  "truthy JUndefined = False"
| "truthy JNull = False"
| "truthy (JBool b) = b"
| "truthy (JNum r) = (r \<noteq> 0)"
| "truthy JNaN = False"
| "truthy (JStr s) = (s \<noteq> [])"

text \<open>\<open>String.prototype.includes\<close>: the argument occurs as a contiguous run of the receiver.\<close>

fun str_includes :: "string \<Rightarrow> string \<Rightarrow> bool" where
  "str_includes [] x = (x = [])"
| "str_includes (c # s) x = (prefix x (c # s) \<or> str_includes s x)"

section \<open>Scoring\<close>

text \<open>
  \<open>restaurant.Severity || ""\<close> followed by \<open>severity.includes(...)\<close>: a falsy value is
  replaced by the empty string; a truthy value that is not a string (a non-zero number,
  \<open>true\<close>) has no method \<open>includes\<close>, and the call throws a TypeError.
\<close>

definition severityText :: "jsobj \<Rightarrow> error + string" where
  "severityText restaurant =
     (let v = get restaurant ''Severity'' in
      if truthy v then (case v of JStr s \<Rightarrow> Inr s | _ \<Rightarrow> Inl TypeError) else Inr [])"

definition calculateHealthScore :: "jsobj \<Rightarrow> error + int" where
  "calculateHealthScore restaurant =
     (let score = 100;
          score = (if get restaurant ''Establishment Status'' = JStr ''Closed'' then score - 100
                   else if get restaurant ''Establishment Status'' = JStr ''Conditional Pass''
                   then score - 30 else score)
      in case severityText restaurant of
           Inl e \<Rightarrow> Inl e
         | Inr severity \<Rightarrow>
             (let score = (if str_includes severity ''C - Crucial'' then score - 40
                           else if str_includes severity ''S - Significant'' then score - 20
                           else if str_includes severity ''M - Minor'' then score - 10
                           else score)
              in Inr (max 0 score)))"

definition getWorstSeverity :: "jsobj \<Rightarrow> error + string" where
  "getWorstSeverity restaurant =
     (case severityText restaurant of
        Inl e \<Rightarrow> Inl e
      | Inr severity \<Rightarrow>
          Inr (if str_includes severity ''C - Crucial'' then ''C''
               else if str_includes severity ''S - Significant'' then ''S''
               else if str_includes severity ''M - Minor'' then ''M''
               else ''clean''))"

definition getHealthGrade :: "int \<Rightarrow> string" where
  "getHealthGrade healthScore =
     (if healthScore \<ge> 90 then ''A''
      else if healthScore \<ge> 75 then ''B''
      else if healthScore \<ge> 60 then ''C''
      else ''D'')"

section \<open>Strings: trim and toLowerCase\<close>

text \<open>
  Strings are sequences of code units below 256 (the Latin-1 range), where \<open>trim\<close> and
  \<open>toLowerCase\<close> keep the number of code units. White space there is TAB, LF, VT, FF,
  CR, SPACE and the no-break space; the upper-case letters are A to Z and the accented
  capitals 192 to 222 without the multiplication sign 215.
\<close>

definition isWhiteSpace :: "char \<Rightarrow> bool" where
  "isWhiteSpace c = ((of_char c :: nat) \<in> set [9, 10, 11, 12, 13, 32, 160])"

definition trim :: "string \<Rightarrow> string" where
  "trim s = rev (dropWhile isWhiteSpace (rev (dropWhile isWhiteSpace s)))"

definition lowerChar :: "char \<Rightarrow> char" where
  "lowerChar c =
     (let n = (of_char c :: nat) in
      if (65 \<le> n \<and> n \<le> 90) \<or> (192 \<le> n \<and> n \<le> 222 \<and> n \<noteq> 215)
      then char_of (n + 32) else c)"

definition toLowerCase :: "string \<Rightarrow> string" where
  "toLowerCase s = map lowerChar s"

section \<open>The loader and its sampling step\<close>

record DataLoader =
  SAMPLE_SIZE :: "nat option"
  RESTAURANT_TYPES :: "string list"

text \<open>The constructor. \<open>SAMPLE_SIZE\<close> may be set to \<open>null\<close> (\<open>None\<close>) to use all data.\<close>

definition new_DataLoader :: DataLoader where
  "new_DataLoader =
     \<lparr> SAMPLE_SIZE = Some 15000,
       RESTAURANT_TYPES =
         [''Restaurant'', ''Food Take Out'', ''Food Court Vendor'',
          ''Cocktail Bar / Beverage Room'', ''Banquet Facility'',
          ''Cafeteria - Public Access'', ''Private Club'',
          ''Mobile Food Preparation Premises'', ''Hot Dog Cart'',
          ''Ice Cream / Yogurt Vendors'', ''Refreshment Stand (Stationary)'',
          ''Food Cart'', ''Catering Vehicle'', ''Chartered Cruise Boats''] \<rparr>"

text \<open>\<open>Set.prototype.has\<close> on a set of strings: only a string can be a member.\<close>

definition has :: "string list \<Rightarrow> jsval \<Rightarrow> bool" where
  "has types v = (case v of JStr s \<Rightarrow> s \<in> set types | _ \<Rightarrow> False)"

text \<open>
  \<open>Math.random()\<close> is a source of numbers in the half-open interval from 0 to 1; \<open>rnd k\<close>
  is the value its \<open>k\<close>-th call returns, counted from the start of \<open>randomSample\<close>, whose
  loop makes one call per iteration. The product and the floor are exact.
\<close>

definition randomSource :: "(nat \<Rightarrow> rat) \<Rightarrow> bool" where
  "randomSource rnd = (\<forall>k. 0 \<le> rnd k \<and> rnd k < 1)"

text \<open>
  The loop \<open>for (let i = 0; i < sampleSize; i++)\<close> of \<open>randomSample\<close>, entered at index
  \<open>i\<close> with the array \<open>result\<close>: it picks \<open>j\<close> at or after \<open>i\<close> and swaps the two
  elements.
\<close>

function shuffleFrom :: "(nat \<Rightarrow> rat) \<Rightarrow> nat \<Rightarrow> nat \<Rightarrow> 'a list \<Rightarrow> 'a list" where
  "shuffleFrom rnd sampleSize i result =
     (if i < sampleSize then
        (let j = i + nat \<lfloor>rnd i * of_int (int (length result) - int i)\<rfloor>
         in shuffleFrom rnd sampleSize (i + 1) (result[i := result ! j, j := result ! i]))
      else result)"
  by pat_completeness auto
termination
  by (relation "measure (\<lambda>(rnd, sampleSize, i, result). sampleSize - i)") auto

declare shuffleFrom.simps [simp del]

definition randomSample :: "(nat \<Rightarrow> rat) \<Rightarrow> 'a list \<Rightarrow> nat option \<Rightarrow> 'a list" where
  "randomSample rnd array sampleSize =
     (case sampleSize of
        None \<Rightarrow> array
      | Some n \<Rightarrow>
          if n = 0 \<or> n \<ge> length array then array
          else take n (shuffleFrom rnd n 0 array))"

section \<open>Review rating synthesis\<close>

text \<open>
  \<open>Number.prototype.toFixed(1)\<close> for a value below \<open>10^21\<close>: the integer \<open>n\<close> with \<open>n / 10\<close>
  nearest to the value (the larger one at a tie), written in decimal with a point before
  its last digit.
\<close>

function decimal :: "nat \<Rightarrow> string" where
  "decimal n = (if n < 10 then [''0123456789'' ! n] else decimal (n div 10) @ [''0123456789'' ! (n mod 10)])"
  by pat_completeness auto
termination
  by (relation "measure id") auto

declare decimal.simps [simp del]

definition toFixed1 :: "rat \<Rightarrow> string" where
  "toFixed1 x =
     (let n = nat \<lfloor>\<bar>x\<bar> * 10 + 1 / 2\<rfloor>
      in (if x < 0 then ''-'' else []) @ decimal (n div 10) @ ''.'' @ decimal (n mod 10))"

text \<open>
  \<open>d["Restaurant Name"] ? d["Restaurant Name"].length : 10\<close>. A truthy name that is not
  a string (a non-zero number, \<open>true\<close>) has no \<open>length\<close>: the result is \<open>undefined\<close>,
  here \<open>None\<close>, and the arithmetic on it gives NaN.
\<close>

definition nameLength :: "jsobj \<Rightarrow> nat option" where
  "nameLength d =
     (let n = get d ''Restaurant Name'' in
      if truthy n then (case n of JStr s \<Rightarrow> Some (length s) | _ \<Rightarrow> None) else Some 10)"

text \<open>The body of the first \<open>forEach\<close>: it writes two properties of the review row \<open>d\<close>.\<close>

definition synthesize :: "jsobj \<Rightarrow> jsobj" where
  "synthesize d =
     (if \<not> truthy (get d ''avg_rating'') then
        (case nameLength d of
           Some nl \<Rightarrow>
             put ''num_of_reviews'' (JNum (of_nat (5 + nl mod 100)))
               (put ''avg_rating'' (JStr (toFixed1 (3 + of_nat (nl mod 15) / 10))) d)
         | None \<Rightarrow> put ''num_of_reviews'' JNaN (put ''avg_rating'' (JStr ''NaN'') d))
      else d)"

section \<open>The join\<close>

text \<open>
  The second \<open>forEach\<close> fills a \<open>Map\<close> from normalised names to review rows, keeping the
  row already stored under a key. \<open>trim\<close> is a method of strings only.
\<close>

definition normalize :: "jsval \<Rightarrow> error + string" where
  "normalize v = (case v of JStr s \<Rightarrow> Inr (toLowerCase (trim s)) | _ \<Rightarrow> Inl TypeError)"

fun buildLookup :: "jsobj list \<Rightarrow> (string \<rightharpoonup> jsobj) \<Rightarrow> error + (string \<rightharpoonup> jsobj)" where
  "buildLookup [] yelpLookup = Inr yelpLookup"
| "buildLookup (yelpRest # rest) yelpLookup =
     (if truthy (get yelpRest ''Restaurant Name'') then
        (case normalize (get yelpRest ''Restaurant Name'') of
           Inl e \<Rightarrow> Inl e
         | Inr key \<Rightarrow>
             if yelpLookup key = None then buildLookup rest (yelpLookup(key \<mapsto> yelpRest))
             else buildLookup rest yelpLookup)
      else buildLookup rest yelpLookup)"

text \<open>
  The value of \<open>yelpMatch\<close>: \<open>null\<close> when the establishment has no name, \<open>undefined\<close> when
  \<open>Map.get\<close> finds nothing, else the review row.
\<close>

datatype match = MNull | MUndefined | MRow jsobj

text \<open>
  The object literal \<open>{...dinesafeRest, yelpMatch, healthScore, healthGrade, worstSeverity}\<close>:
  the copied properties of the inspection row and the four computed ones.
\<close>

record enriched =
  dinesafe :: jsobj
  yelpMatch :: match
  healthScore :: int
  healthGrade :: string
  worstSeverity :: string

definition lookupMatch :: "(string \<rightharpoonup> jsobj) \<Rightarrow> jsobj \<Rightarrow> error + match" where
  "lookupMatch yelpLookup dinesafeRest =
     (if truthy (get dinesafeRest ''Establishment Name'') then
        (case normalize (get dinesafeRest ''Establishment Name'') of
           Inl e \<Rightarrow> Inl e
         | Inr key \<Rightarrow> Inr (case yelpLookup key of None \<Rightarrow> MUndefined | Some r \<Rightarrow> MRow r))
      else Inr MNull)"

definition enrich :: "(string \<rightharpoonup> jsobj) \<Rightarrow> jsobj \<Rightarrow> error + enriched" where
  "enrich yelpLookup dinesafeRest =
     (case lookupMatch yelpLookup dinesafeRest of
        Inl e \<Rightarrow> Inl e
      | Inr m \<Rightarrow>
          (case calculateHealthScore dinesafeRest of
             Inl e \<Rightarrow> Inl e
           | Inr score \<Rightarrow>
               (case getWorstSeverity dinesafeRest of
                  Inl e \<Rightarrow> Inl e
                | Inr w \<Rightarrow>
                    Inr \<lparr> dinesafe = dinesafeRest, yelpMatch = m, healthScore = score,
                          healthGrade = getHealthGrade score, worstSeverity = w \<rparr>)))"

text \<open>\<open>Array.prototype.map\<close> with a callback that may throw: the first throw ends the call.\<close>

fun mapE :: "('a \<Rightarrow> error + 'b) \<Rightarrow> 'a list \<Rightarrow> error + 'b list" where
  "mapE f [] = Inr []"
| "mapE f (x # xs) =
     (case f x of
        Inl e \<Rightarrow> Inl e
      | Inr y \<Rightarrow> (case mapE f xs of Inl e \<Rightarrow> Inl e | Inr ys \<Rightarrow> Inr (y # ys)))"

definition hasGeo :: "enriched \<Rightarrow> bool" where
  "hasGeo d = (truthy (get (dinesafe d) ''Latitude'') \<and> truthy (get (dinesafe d) ''Longitude''))"

section \<open>processData\<close>

text \<open>
  The review data set handed to \<open>processData\<close> is an array of rows or, when malformed,
  some value that is not an array.
\<close>

datatype yelp_input = YelpRows "jsobj list" | NotArray jsval

definition yelpRows :: "yelp_input \<Rightarrow> jsobj list" where
  "yelpRows yelpData = (case yelpData of YelpRows ys \<Rightarrow> ys | NotArray v \<Rightarrow> [])"

text \<open>
  \<open>processData\<close> returns the merged records. It also changes the caller's review rows: the
  first \<open>forEach\<close> assigns to properties of the rows of the array it was given, so the
  model returns the review data set as it stands after the call. An array that replaced
  a malformed argument is local, and the argument stays as it was. The inspection rows
  are only read: the filter, the copy \<open>[...array]\<close> and the object literal build new
  arrays and objects. A call in which a method call throws returns the error alone. The
  \<open>console.log\<close> calls are left out.
\<close>

text \<open>Step 1, the type filter.\<close>

definition restaurantsOnly :: "DataLoader \<Rightarrow> jsobj list \<Rightarrow> jsobj list" where
  "restaurantsOnly this dinesafeJson =
     filter (\<lambda>d. has (RESTAURANT_TYPES this) (get d ''Establishment Type'')) dinesafeJson"

definition processData ::
  "DataLoader \<Rightarrow> (nat \<Rightarrow> rat) \<Rightarrow> jsobj list \<Rightarrow> yelp_input
     \<Rightarrow> error + (enriched list \<times> yelp_input)" where
  "processData this rnd dinesafeJson yelpData =
     (let sampledDinesafe =
            randomSample rnd (restaurantsOnly this dinesafeJson) (SAMPLE_SIZE this);
          rows = map synthesize (yelpRows yelpData)
      in case buildLookup rows Map.empty of
           Inl e \<Rightarrow> Inl e
         | Inr yelpLookup \<Rightarrow>
             (case mapE (enrich yelpLookup) sampledDinesafe of
                Inl e \<Rightarrow> Inl e
              | Inr merged \<Rightarrow>
                  Inr (filter hasGeo merged,
                       (case yelpData of YelpRows ys \<Rightarrow> YelpRows rows | NotArray v \<Rightarrow> NotArray v))))"

section \<open>Reference definitions\<close>

text \<open>
  The deductions as the specification words them: \<open>s\<close> from the status, \<open>v\<close> from the
  severity text, with containment as the existence of a surrounding prefix and suffix.
\<close>

definition statusDeduction :: "jsval \<Rightarrow> int" where
  "statusDeduction status =
     (if status = JStr ''Closed'' then 100
      else if status = JStr ''Conditional Pass'' then 30 else 0)"

definition severityDeduction :: "string \<Rightarrow> int" where
  "severityDeduction text =
     (if sublist ''C - Crucial'' text then 40
      else if sublist ''S - Significant'' text then 20
      else if sublist ''M - Minor'' text then 10 else 0)"

text \<open>
  The severity text of an inspection row: the string in \<open>Severity\<close>, the empty text when
  the property is absent or otherwise falsy, and none when it holds a truthy value that
  is not text.
\<close>

definition severityOf :: "jsobj \<Rightarrow> string option" where
  "severityOf r =
     (case get r ''Severity'' of
        JStr s \<Rightarrow> Some s
      | v \<Rightarrow> if truthy v then None else Some [])"

text \<open>
  A review row has the join key \<open>key\<close> when its name is a non-empty string that
  normalises (trimmed, lower-cased) to \<open>key\<close>.
\<close>

definition hasKey :: "string \<Rightarrow> jsobj \<Rightarrow> bool" where
  "hasKey key r =
     (case get r ''Restaurant Name'' of JStr s \<Rightarrow> s \<noteq> [] \<and> toLowerCase (trim s) = key | _ \<Rightarrow> False)"

text \<open>
  An inspection row is well typed when its severity is text or falsy and its name is a
  string or falsy, as in the input format; then no method call of the pipeline on it throws.
\<close>

definition wellTypedInspection :: "jsobj \<Rightarrow> bool" where
  "wellTypedInspection d =
     (severityOf d \<noteq> None \<and>
      (case get d ''Establishment Name'' of JStr s \<Rightarrow> True | v \<Rightarrow> \<not> truthy v))"




text \<open>
  A coordinate is non-empty and numeric-parseable when it is a number, or a non-empty
  string that the conversion to a number (the unary plus the map code applies to it)
  accepts: optional white space around a signed decimal literal with optional fraction and
  exponent, \<open>Infinity\<close>, or a hexadecimal, octal or binary integer literal.
\<close>

definition isDigit :: "char \<Rightarrow> bool" where
  "isDigit c = (c \<in> set ''0123456789'')"

definition stripSign :: "string \<Rightarrow> string" where
  "stripSign s = (case s of c # t \<Rightarrow> if c = CHR ''+'' \<or> c = CHR ''-'' then t else s | [] \<Rightarrow> s)"

definition exponentPart :: "string \<Rightarrow> bool" where
  "exponentPart s =
     (case s of
        [] \<Rightarrow> True
      | c # t \<Rightarrow> (c = CHR ''e'' \<or> c = CHR ''E'') \<and> stripSign t \<noteq> [] \<and> list_all isDigit (stripSign t))"

definition unsignedDecimal :: "string \<Rightarrow> bool" where
  "unsignedDecimal s =
     (s = ''Infinity'' \<or>
      (let ds = takeWhile isDigit s; r = dropWhile isDigit s in
       case r of
         c # t \<Rightarrow>
           if c = CHR ''.''
           then (ds \<noteq> [] \<or> takeWhile isDigit t \<noteq> []) \<and> exponentPart (dropWhile isDigit t)
           else ds \<noteq> [] \<and> exponentPart r
       | [] \<Rightarrow> ds \<noteq> []))"

definition nonDecimalInteger :: "string \<Rightarrow> bool" where
  "nonDecimalInteger s =
     (case s of
        z # x # t \<Rightarrow>
          z = CHR ''0'' \<and> t \<noteq> [] \<and>
          (if x \<in> set ''xX'' then list_all (\<lambda>c. c \<in> set ''0123456789abcdefABCDEF'') t
           else if x \<in> set ''oO'' then list_all (\<lambda>c. c \<in> set ''01234567'') t
           else if x \<in> set ''bB'' then list_all (\<lambda>c. c \<in> set ''01'') t
           else False)
      | _ \<Rightarrow> False)"

definition numericString :: "string \<Rightarrow> bool" where
  "numericString s =
     (let t = trim s in t = [] \<or> nonDecimalInteger t \<or> unsignedDecimal (stripSign t))"

definition numericParseable :: "jsval \<Rightarrow> bool" where
  "numericParseable v =
     (case v of JStr s \<Rightarrow> s \<noteq> [] \<and> numericString s | JNum r \<Rightarrow> True | _ \<Rightarrow> False)"

text \<open>A source of draws that always returns 0.\<close>

definition rnd_zero :: "nat \<Rightarrow> rat" where
  "rnd_zero k = 0"

section \<open>Example data\<close>

text \<open>An inspection row of a restaurant that passed, and the record the pipeline derives from it.\<close>

definition exampleRow :: "string \<Rightarrow> string \<Rightarrow> string \<Rightarrow> jsobj" where
  "exampleRow name lat lon =
     [(''Establishment Name'', JStr name), (''Establishment Type'', JStr ''Restaurant''),
      (''Establishment Status'', JStr ''Pass''), (''Latitude'', JStr lat), (''Longitude'', JStr lon)]"

definition exampleRecord :: "string \<Rightarrow> string \<Rightarrow> string \<Rightarrow> match \<Rightarrow> enriched" where
  "exampleRecord name lat lon m =
     \<lparr> dinesafe = exampleRow name lat lon, yelpMatch = m, healthScore = 100,
       healthGrade = ''A'', worstSeverity = ''clean'' \<rparr>"

text \<open>A review row that carries a rating.\<close>

definition exampleReview :: "string \<Rightarrow> string \<Rightarrow> jsobj" where
  "exampleReview name rating = [(''Restaurant Name'', JStr name), (''avg_rating'', JStr rating)]"

section \<open>loadData and the session cache\<close>

text \<open>
  An item of the session storage is a JSON text; it is represented by the value that
  \<open>JSON.parse\<close> reads back from it. Writing a row with \<open>JSON.stringify\<close> leaves out the
  properties whose value is \<open>undefined\<close> and turns NaN into \<open>null\<close>. The geographic data is
  an opaque value. Only \<open>loadData\<close> writes the three items.
\<close>

definition jsonRow :: "jsobj \<Rightarrow> jsobj" where
  "jsonRow d =
     map (\<lambda>(k, v). (k, if v = JNaN then JNull else v)) (filter (\<lambda>(k, v). v \<noteq> JUndefined) d)"

definition jsonClean :: "jsobj \<Rightarrow> bool" where
  "jsonClean d = list_all (\<lambda>(k, v). v \<noteq> JUndefined \<and> v \<noteq> JNaN) d"

record 'g sessionStorage =
  cachedGeoData :: "'g option"
  cachedDinesafeData :: "jsobj list option"
  cachedYelpData :: "jsobj list option"

definition emptyStorage :: "'g sessionStorage" where
  "emptyStorage = \<lparr> cachedGeoData = None, cachedDinesafeData = None, cachedYelpData = None \<rparr>"

definition cacheComplete :: "'g sessionStorage \<Rightarrow> bool" where
  "cacheComplete st =
     (cachedGeoData st \<noteq> None \<and> cachedDinesafeData st \<noteq> None \<and> cachedYelpData st \<noteq> None)"

text \<open>
  The three \<open>setItem\<close> calls inside \<open>try\<close>: the first one that throws (quota exceeded)
  ends the block, and the \<open>catch\<close> only logs. \<open>quota\<close> is the number of calls that succeed.
\<close>

definition cacheRaw ::
  "nat \<Rightarrow> 'g \<Rightarrow> jsobj list \<Rightarrow> jsobj list \<Rightarrow> 'g sessionStorage \<Rightarrow> 'g sessionStorage" where
  "cacheRaw quota geo dinesafeJson yelpData st =
     (let st = (if 0 < quota then st\<lparr>cachedGeoData := Some geo\<rparr> else st);
          st = (if 1 < quota then st\<lparr>cachedDinesafeData := Some (map jsonRow dinesafeJson)\<rparr> else st);
          st = (if 2 < quota then st\<lparr>cachedYelpData := Some (map jsonRow yelpData)\<rparr> else st)
      in st)"

text \<open>The object \<open>{ geo, mergedData }\<close> that \<open>loadData\<close> returns; a throw of \<open>processData\<close> rejects.\<close>

definition mergedResult :: "'g \<Rightarrow> error + (enriched list \<times> yelp_input) \<Rightarrow> error + ('g \<times> enriched list)" where
  "mergedResult geo r =
     (case r of Inl e \<Rightarrow> Inl e | Inr (mergedData, after) \<Rightarrow> Inr (geo, mergedData))"

text \<open>
  \<open>loadData\<close>, given what the three fetches deliver: with all three items cached it
  parses them and processes the parsed data; otherwise it caches the fetched raw data,
  before \<open>processData\<close> runs, and processes the fetched data. \<open>d3.csv\<close> always delivers an
  array of rows.
\<close>

definition loadData ::
  "DataLoader \<Rightarrow> (nat \<Rightarrow> rat) \<Rightarrow> 'g \<times> jsobj list \<times> jsobj list \<Rightarrow> nat \<Rightarrow> 'g sessionStorage
     \<Rightarrow> (error + ('g \<times> enriched list)) \<times> 'g sessionStorage" where
  "loadData this rnd fetched quota st =
     (if cacheComplete st then
        (let geo = the (cachedGeoData st);
             dinesafeJson = the (cachedDinesafeData st);
             yelpData = the (cachedYelpData st)
         in (mergedResult geo (processData this rnd dinesafeJson (YelpRows yelpData)), st))
      else
        (case fetched of (geo, dinesafeJson, yelpData) \<Rightarrow>
           (mergedResult geo (processData this rnd dinesafeJson (YelpRows yelpData)),
            cacheRaw quota geo dinesafeJson yelpData st)))"

section \<open>Runs of the pipeline\<close>

text \<open>
  Two runs on the inspection data \<open>ds\<close> see the same sample when no sampling takes place
  (no bound, bound 0, or no more restaurant rows than the bound) or when their first \<open>n\<close>
  random draws agree, \<open>n\<close> being the bound.
\<close>

definition sameSample :: "DataLoader \<Rightarrow> jsobj list \<Rightarrow> (nat \<Rightarrow> rat) \<Rightarrow> (nat \<Rightarrow> rat) \<Rightarrow> bool" where
  "sameSample this ds rnd rnd' =
     (case SAMPLE_SIZE this of
        None \<Rightarrow> True
      | Some n \<Rightarrow> n = 0 \<or> length (restaurantsOnly this ds) \<le> n \<or> (\<forall>k<n. rnd k = rnd' k))"

text \<open>A source of draws whose first draw picks the last of 15001 elements.\<close>

definition rnd_swap :: "nat \<Rightarrow> rat" where
  "rnd_swap k = (if k = 0 then 15000 / 15001 else 0)"

section \<open>Properties of the scoring functions\<close>

lemma str_includes_iff_sublist: "str_includes s x \<longleftrightarrow> sublist x s"
  by (induction s) (auto simp: sublist_Cons_right)

text \<open>
  Claim C7. The grade is fixed by exact thresholds: a score of at least 90 is an A, from 75
  up to 89 a B, from 60 up to 74 a C, below 60 a D; at the boundaries 90 gives A, 89 B,
  75 B, 74 C, 60 C and 59 D.
\<close>

theorem getHealthGrade_thresholds:
  "(90 \<le> s \<longrightarrow> getHealthGrade s = ''A'')
   \<and> (75 \<le> s \<and> s < 90 \<longrightarrow> getHealthGrade s = ''B'')
   \<and> (60 \<le> s \<and> s < 75 \<longrightarrow> getHealthGrade s = ''C'')
   \<and> (s < 60 \<longrightarrow> getHealthGrade s = ''D'')
   \<and> getHealthGrade 90 = ''A'' \<and> getHealthGrade 89 = ''B'' \<and> getHealthGrade 75 = ''B''
   \<and> getHealthGrade 74 = ''C'' \<and> getHealthGrade 60 = ''C'' \<and> getHealthGrade 59 = ''D''"
  by (simp add: getHealthGrade_def)

theorem getHealthGrade_thresholds_witness:
  "getHealthGrade 100 = ''A'' \<and> getHealthGrade 80 = ''B'' \<and> getHealthGrade 70 = ''C''
   \<and> getHealthGrade 0 = ''D''"
  using getHealthGrade_thresholds [of 100] getHealthGrade_thresholds [of 80]
    getHealthGrade_thresholds [of 70] getHealthGrade_thresholds [of 0]
  by simp

lemma severityText_severityOf:
  "severityText r = (case severityOf r of Some s \<Rightarrow> Inr s | None \<Rightarrow> Inl TypeError)"
  by (cases "get r ''Severity''") (auto simp: severityText_def severityOf_def Let_def)

lemma calculateHealthScore_TypeError:
  "severityOf r = None \<Longrightarrow> calculateHealthScore r = Inl TypeError"
  by (simp add: calculateHealthScore_def severityText_severityOf Let_def)

lemma statusDeduction_range: "0 \<le> statusDeduction v" "statusDeduction (JStr ''Closed'') = 100"
  by (simp_all add: statusDeduction_def)

lemma severityDeduction_range: "0 \<le> severityDeduction t"
  by (simp add: severityDeduction_def)

lemma calculateHealthScore_eq:
  assumes "severityOf r = Some text"
  shows "calculateHealthScore r =
           Inr (max 0 (100 - statusDeduction (get r ''Establishment Status'')
                           - severityDeduction text))"
proof -
  define A where "A \<longleftrightarrow> get r ''Establishment Status'' = JStr ''Closed''"
  define B where "B \<longleftrightarrow> get r ''Establishment Status'' = JStr ''Conditional Pass''"
  define C where "C \<longleftrightarrow> sublist ''C - Crucial'' text"
  define S where "S \<longleftrightarrow> sublist ''S - Significant'' text"
  define M where "M \<longleftrightarrow> sublist ''M - Minor'' text"
  from assms have "severityText r = Inr text"
    by (simp add: severityText_severityOf)
  then have lhs: "calculateHealthScore r =
      Inr (max 0 (if C then (if A then 100 - 100 else if B then 100 - 30 else 100) - 40
                  else if S then (if A then 100 - 100 else if B then 100 - 30 else 100) - 20
                  else if M then (if A then 100 - 100 else if B then 100 - 30 else 100) - 10
                  else (if A then 100 - 100 else if B then 100 - 30 else 100)))"
    unfolding calculateHealthScore_def str_includes_iff_sublist Let_def A_def B_def C_def S_def M_def
    by (simp only: sum.case)
  have rhs: "statusDeduction (get r ''Establishment Status'') = (if A then 100 else if B then 30 else 0)"
    "severityDeduction text = (if C then 40 else if S then 20 else if M then 10 else 0)"
    unfolding statusDeduction_def severityDeduction_def A_def B_def C_def S_def M_def
    by (rule refl)+
  show ?thesis
    unfolding lhs rhs by (cases A; cases B; cases C; cases S; cases M) simp_all
qed

text \<open>
  Claim C1. For an inspection row whose severity is text (or absent), the health score is
  \<open>max 0 (100 - s - v)\<close> with \<open>s\<close> and \<open>v\<close> the status and severity deductions; a row with
  status Closed scores 0 whatever its severity, and the score lies between 0 and 100.
\<close>

theorem calculateHealthScore_formula:
  assumes "severityOf r = Some text"
  shows "calculateHealthScore r =
           Inr (max 0 (100 - statusDeduction (get r ''Establishment Status'')
                           - severityDeduction text))
         \<and> (get r ''Establishment Status'' = JStr ''Closed'' \<longrightarrow> calculateHealthScore r = Inr 0)
         \<and> (\<exists>h. calculateHealthScore r = Inr h \<and> 0 \<le> h \<and> h \<le> 100)"
proof -
  note eq = calculateHealthScore_eq [OF assms]
  have s: "0 \<le> statusDeduction (get r ''Establishment Status'')"
    and v: "0 \<le> severityDeduction text"
    by (rule statusDeduction_range, rule severityDeduction_range)
  have closed: "calculateHealthScore r = Inr 0" if "get r ''Establishment Status'' = JStr ''Closed''"
    using eq v by (simp only: that statusDeduction_range(2)) simp
  have "max 0 (100 - statusDeduction (get r ''Establishment Status'') - severityDeduction text) \<le> 100"
    using s v by simp
  with eq closed show ?thesis by simp
qed

theorem calculateHealthScore_formula_witness:
  "severityOf [(''Establishment Status'', JStr ''Conditional Pass''),
               (''Severity'', JStr ''S - Significant: food held at 8C'')]
     = Some ''S - Significant: food held at 8C''
   \<and> calculateHealthScore [(''Establishment Status'', JStr ''Conditional Pass''),
               (''Severity'', JStr ''S - Significant: food held at 8C'')] = Inr 50
   \<and> calculateHealthScore [(''Establishment Status'', JStr ''Closed''),
               (''Severity'', JStr ''C - Crucial'')] = Inr 0"
  using calculateHealthScore_formula
     [of "[(''Establishment Status'', JStr ''Conditional Pass''),
           (''Severity'', JStr ''S - Significant: food held at 8C'')]"
         "''S - Significant: food held at 8C''"]
    calculateHealthScore_formula
     [of "[(''Establishment Status'', JStr ''Closed''), (''Severity'', JStr ''C - Crucial'')]"
         "''C - Crucial''"]
  by (simp add: severityOf_def get_def statusDeduction_def severityDeduction_def sublist_code)

section \<open>Properties of the sampling step\<close>

lemma randomSource_pick:
  assumes "randomSource rnd" and "i < n"
  shows "i + nat \<lfloor>rnd i * of_int (int n - int i)\<rfloor> < n"
proof -
  from assms(1) have r: "0 \<le> rnd i" "rnd i < 1"
    by (simp_all add: randomSource_def)
  let ?m = "int n - int i"
  have m: "0 < ?m" using assms(2) by simp
  have "rnd i * of_int ?m < of_int ?m"
    using r(2) m by simp
  then have up: "\<lfloor>rnd i * of_int ?m\<rfloor> < ?m"
    by (simp add: floor_less_iff)
  have "0 \<le> rnd i * of_int ?m"
    using r(1) m by simp
  then have lo: "0 \<le> \<lfloor>rnd i * of_int ?m\<rfloor>"
    by simp
  from up lo show ?thesis by linarith
qed

lemma length_shuffleFrom [simp]: "length (shuffleFrom rnd n i xs) = length xs"
proof (induction rnd n i xs rule: shuffleFrom.induct)
  case (1 rnd n i xs)
  show ?case
  proof (cases "i < n")
    case True
    with "1.IH" show ?thesis
      by (subst shuffleFrom.simps) (simp add: Let_def)
  next
    case False
    then show ?thesis by (subst shuffleFrom.simps) simp
  qed
qed

text \<open>Each iteration swaps two positions inside the array, so the loop permutes it.\<close>

lemma mset_shuffleFrom:
  "randomSource rnd \<Longrightarrow> n \<le> length xs \<Longrightarrow> mset (shuffleFrom rnd n i xs) = mset xs"
proof (induction rnd n i xs rule: shuffleFrom.induct)
  case (1 rnd n i xs)
  show ?case
  proof (cases "i < n")
    case True
    define j where "j = i + nat \<lfloor>rnd i * of_int (int (length xs) - int i)\<rfloor>"
    define ys where "ys = xs[i := xs ! j, j := xs ! i]"
    from True "1.prems" have i: "i < length xs" by simp
    with "1.prems"(1) have j: "j < length xs"
      unfolding j_def by (rule randomSource_pick)
    have swap: "mset ys = mset xs"
      unfolding ys_def using j i by (rule mset_swap)
    have "mset (shuffleFrom rnd n (i + 1) ys) = mset ys"
      using "1.IH" [OF True j_def] "1.prems" by (simp add: ys_def)
    moreover have "shuffleFrom rnd n i xs = shuffleFrom rnd n (i + 1) ys"
      using True by (subst shuffleFrom.simps) (simp add: Let_def j_def ys_def)
    ultimately show ?thesis using swap by simp
  next
    case False
    then show ?thesis by (subst shuffleFrom.simps) simp
  qed
qed

text \<open>When every draw from index \<open>i\<close> on is 0, each element is swapped with itself.\<close>

lemma shuffleFrom_zero:
  "(\<forall>k. i \<le> k \<longrightarrow> rnd k = 0) \<Longrightarrow> shuffleFrom rnd n i xs = xs"
proof (induction rnd n i xs rule: shuffleFrom.induct)
  case (1 rnd n i xs)
  show ?case
  proof (cases "i < n")
    case True
    have "rnd i = 0" using "1.prems" by simp
    then have "shuffleFrom rnd n i xs = shuffleFrom rnd n (i + 1) xs"
      using True by (subst shuffleFrom.simps) (simp add: Let_def)
    also have "\<dots> = xs"
      using "1.IH" [OF True refl] "1.prems" \<open>rnd i = 0\<close> by (simp add: Let_def)
    finally show ?thesis .
  next
    case False
    then show ?thesis by (subst shuffleFrom.simps) simp
  qed
qed

lemma randomSample_keep:
  "sampleSize = None \<or> sampleSize = Some 0 \<or> (\<exists>n. sampleSize = Some n \<and> length array \<le> n)
     \<Longrightarrow> randomSample rnd array sampleSize = array"
  by (auto simp: randomSample_def)

lemma randomSample_draw:
  assumes "randomSource rnd" and "0 < n" and "n < length array"
  shows "length (randomSample rnd array (Some n)) = n"
    and "mset (randomSample rnd array (Some n)) \<subseteq># mset array"
    and "\<exists>p. mset p = mset array \<and> randomSample rnd array (Some n) = take n p"
proof -
  let ?p = "shuffleFrom rnd n 0 array"
  have rs: "randomSample rnd array (Some n) = take n ?p"
    using assms(2,3) by (simp add: randomSample_def)
  have p: "mset ?p = mset array"
    using assms(1,3) by (simp add: mset_shuffleFrom)
  show "length (randomSample rnd array (Some n)) = n"
    using assms(3) by (simp add: rs)
  have "mset (take n ?p) \<subseteq># mset (take n ?p) + mset (drop n ?p)"
    by simp
  also have "\<dots> = mset ?p"
    by (simp flip: mset_append)
  finally show "mset (randomSample rnd array (Some n)) \<subseteq># mset array"
    by (simp add: rs p)
  show "\<exists>p. mset p = mset array \<and> randomSample rnd array (Some n) = take n p"
    using rs p by blast
qed

lemma set_randomSample:
  assumes "randomSource rnd"
  shows "set (randomSample rnd array sampleSize) \<subseteq> set array"
proof (cases "\<exists>n. sampleSize = Some n \<and> 0 < n \<and> n < length array")
  case True
  then obtain n where n: "sampleSize = Some n" "0 < n" "n < length array" by blast
  from randomSample_draw(2) [OF assms n(2,3)] show ?thesis
    using n(1) by (meson mset_subset_eqD subsetI in_multiset_in_set)
next
  case False
  then have "randomSample rnd array sampleSize = array"
    by (cases sampleSize) (auto simp: randomSample_def)
  then show ?thesis by simp
qed

lemma randomSource_rnd_zero: "randomSource rnd_zero"
  by (simp add: randomSource_def rnd_zero_def)

text \<open>
  Claim C6, as stated, fails for the sample bound 0: a one-element list is longer than the
  bound, and the sampling step returns it whole instead of returning 0 elements.
\<close>

theorem randomSample_bound_zero_counterexample:
  "0 < length [CHR ''a''] \<and> randomSample rnd_zero [CHR ''a''] (Some 0) = [CHR ''a'']
   \<and> length (randomSample rnd_zero [CHR ''a''] (Some 0)) \<noteq> 0"
  by (simp add: randomSample_def)

text \<open>
  Claim C6, amended. For every input list and every positive sample bound \<open>n\<close>, the
  sampling step returns the list itself when its length is at most \<open>n\<close>; when the list is
  longer it returns exactly \<open>n\<close> elements, the first \<open>n\<close> of a permutation of the list, so
  drawn from it without replacement. With the bound 0 or \<open>null\<close> there is no sampling and
  the list is returned unchanged.
\<close>

theorem randomSample_size_and_membership:
  assumes "randomSource rnd" and "0 < n"
  shows "(length array \<le> n \<longrightarrow> randomSample rnd array (Some n) = array)
         \<and> (n < length array \<longrightarrow>
              length (randomSample rnd array (Some n)) = n
              \<and> mset (randomSample rnd array (Some n)) \<subseteq># mset array
              \<and> (\<exists>p. mset p = mset array \<and> randomSample rnd array (Some n) = take n p))
         \<and> randomSample rnd array (Some 0) = array
         \<and> randomSample rnd array None = array"
  using randomSample_draw [OF assms, of array] by (auto simp: randomSample_keep)

theorem randomSample_size_and_membership_witness:
  "randomSource (\<lambda>k. 1 / 2) \<and> (0::nat) < 3
   \<and> randomSample (\<lambda>k. 1 / 2) [1, 2, 3, 4, 5 :: nat] (Some 3) = [3, 4, 2]
   \<and> randomSample (\<lambda>k. 1 / 2) [1, 2 :: nat] (Some 3) = [1, 2]"
proof -
  have src: "randomSource (\<lambda>k. 1 / 2)"
    by (simp add: randomSource_def)
  have a: "randomSample (\<lambda>k. 1 / 2) [1, 2, 3, 4, 5 :: nat] (Some 3) = [3, 4, 2]"
    by code_simp
  have b: "randomSample (\<lambda>k. 1 / 2) [1, 2 :: nat] (Some 3) = [1, 2]"
    using randomSample_size_and_membership [OF src, of 3 "[1, 2 :: nat]"] by simp
  have "length (randomSample (\<lambda>k. 1 / 2) [1, 2, 3, 4, 5 :: nat] (Some 3)) = 3"
    using randomSample_size_and_membership [OF src, of 3 "[1, 2, 3, 4, 5 :: nat]"] by simp
  with src a b show ?thesis by simp
qed

section \<open>Properties of row objects and of the synthesis\<close>

lemma get_put: "get (put k v d) k' = (if k' = k then v else get d k')"
  by (induction d) (auto simp: get_def)

lemma get_synthesize_other:
  "k \<noteq> ''avg_rating'' \<Longrightarrow> k \<noteq> ''num_of_reviews'' \<Longrightarrow> get (synthesize d) k = get d k"
  by (simp add: synthesize_def get_put split: option.splits)

lemma synthesize_truthy: "truthy (get d ''avg_rating'') \<Longrightarrow> synthesize d = d"
  by (simp add: synthesize_def)

lemma synthesize_falsy:
  assumes "\<not> truthy (get d ''avg_rating'')"
  shows "get (synthesize d) ''avg_rating'' =
           (case nameLength d of
              Some nl \<Rightarrow> JStr (toFixed1 (3 + of_nat (nl mod 15) / 10))
            | None \<Rightarrow> JStr ''NaN'')"
    and "get (synthesize d) ''num_of_reviews'' =
           (case nameLength d of Some nl \<Rightarrow> JNum (of_nat (5 + nl mod 100)) | None \<Rightarrow> JNaN)"
  using assms by (simp_all add: synthesize_def get_put split: option.splits)



section \<open>Properties of the join and of processData\<close>

lemma mapE_Inr_iff: "mapE f xs = Inr ys \<longleftrightarrow> list_all2 (\<lambda>x y. f x = Inr y) xs ys"
proof (induction xs arbitrary: ys)
  case Nil
  then show ?case by auto
next
  case (Cons x xs)
  show ?case
    by (cases ys) (auto simp flip: Cons.IH split: sum.splits)
qed

lemma mapE_member:
  assumes "mapE f xs = Inr ys" and "y \<in> set ys"
  shows "\<exists>x \<in> set xs. f x = Inr y"
proof -
  from assms(1) have "list_all2 (\<lambda>x y. f x = Inr y) xs ys"
    by (simp add: mapE_Inr_iff)
  then show ?thesis
    using assms(2) by (induction rule: list_all2_induct) auto
qed

lemma mapE_total:
  "(\<forall>x \<in> set xs. \<exists>y. f x = Inr y) \<Longrightarrow> \<exists>ys. mapE f xs = Inr ys"
  by (induction xs) auto

lemma hasKey_normalize:
  "hasKey key r \<longleftrightarrow>
     truthy (get r ''Restaurant Name'') \<and> normalize (get r ''Restaurant Name'') = Inr key"
  by (cases "get r ''Restaurant Name''") (auto simp: hasKey_def normalize_def)

lemma buildLookup_find:
  "buildLookup rows m = Inr m' \<Longrightarrow>
     m' key = (case m key of Some r \<Rightarrow> Some r | None \<Rightarrow> find (hasKey key) rows)"
proof (induction rows arbitrary: m)
  case Nil
  then show ?case by (auto split: option.splits)
next
  case (Cons r rows)
  show ?case
  proof (cases "truthy (get r ''Restaurant Name'')")
    case False
    then have "\<not> hasKey key r" by (simp add: hasKey_normalize)
    with False Cons show ?thesis by (simp split: option.splits)
  next
    case True
    with Cons.prems obtain k where k: "normalize (get r ''Restaurant Name'') = Inr k"
      by (auto split: sum.splits)
    have hk: "hasKey key r \<longleftrightarrow> k = key"
      using True k by (auto simp: hasKey_normalize)
    show ?thesis
    proof (cases "m k")
      case None
      with True k Cons.prems have "buildLookup rows (m(k \<mapsto> r)) = Inr m'" by simp
      from Cons.IH [OF this] show ?thesis
        using None hk by (auto split: option.splits)
    next
      case (Some r')
      with True k Cons.prems have "buildLookup rows m = Inr m'" by simp
      from Cons.IH [OF this] show ?thesis
        using Some hk by (auto split: option.splits)
    qed
  qed
qed

lemma buildLookup_total:
  "(\<forall>r \<in> set rows. \<exists>k. truthy (get r ''Restaurant Name'') \<longrightarrow> normalize (get r ''Restaurant Name'') = Inr k)
     \<Longrightarrow> \<exists>m'. buildLookup rows m = Inr m'"
  by (induction rows arbitrary: m) auto

lemma hasKey_synthesize [simp]: "hasKey key (synthesize r) = hasKey key r"
  by (simp add: hasKey_def get_synthesize_other)

lemma find_hasKey_synthesize:
  "find (hasKey key) (map synthesize rows) = map_option synthesize (find (hasKey key) rows)"
  by (induction rows) auto

lemma processData_Inr:
  assumes "processData this rnd ds y = Inr (out, after)"
  obtains m merged where
    "buildLookup (map synthesize (yelpRows y)) Map.empty = Inr m"
    "mapE (enrich m) (randomSample rnd (restaurantsOnly this ds) (SAMPLE_SIZE this)) = Inr merged"
    "out = filter hasGeo merged"
    "after = (case y of YelpRows ys \<Rightarrow> YelpRows (map synthesize ys) | NotArray v \<Rightarrow> NotArray v)"
  using assms
  by (cases y) (auto simp: processData_def yelpRows_def Let_def split: sum.splits)

lemma enrich_Inr:
  assumes "enrich m d = Inr e"
  shows "dinesafe e = d" and "lookupMatch m d = Inr (yelpMatch e)"
    and "calculateHealthScore d = Inr (healthScore e)"
    and "healthGrade e = getHealthGrade (healthScore e)"
    and "getWorstSeverity d = Inr (worstSeverity e)"
  using assms by (auto simp: enrich_def split: sum.splits)

lemma processData_member:
  assumes "processData this rnd ds y = Inr (out, after)" and "e \<in> set out"
  obtains m where
    "buildLookup (map synthesize (yelpRows y)) Map.empty = Inr m"
    "enrich m (dinesafe e) = Inr e"
    "dinesafe e \<in> set (randomSample rnd (restaurantsOnly this ds) (SAMPLE_SIZE this))"
    "hasGeo e"
proof -
  from assms(1) obtain m merged where m:
    "buildLookup (map synthesize (yelpRows y)) Map.empty = Inr m"
    "mapE (enrich m) (randomSample rnd (restaurantsOnly this ds) (SAMPLE_SIZE this)) = Inr merged"
    "out = filter hasGeo merged"
    by (rule processData_Inr)
  from m(3) assms(2) have e: "e \<in> set merged" "hasGeo e" by simp_all
  from mapE_member [OF m(2) e(1)] obtain d where
    d: "d \<in> set (randomSample rnd (restaurantsOnly this ds) (SAMPLE_SIZE this))" "enrich m d = Inr e"
    by blast
  from enrich_Inr(1) [OF d(2)] have "dinesafe e = d" .
  with d m(1) e(2) that show thesis by simp
qed

text \<open>
  Claim C2, as stated, fails: a row whose coordinates are non-empty strings that are not
  numbers passes the final filter, which tests truthiness only.
\<close>

theorem processData_nonnumeric_geo_counterexample:
  "processData new_DataLoader rnd_zero [exampleRow ''Cafe'' ''unknown'' ''n/a''] (YelpRows [])
     = Inr ([exampleRecord ''Cafe'' ''unknown'' ''n/a'' MUndefined], YelpRows [])
   \<and> get (dinesafe (exampleRecord ''Cafe'' ''unknown'' ''n/a'' MUndefined)) ''Latitude'' = JStr ''unknown''
   \<and> \<not> numericParseable (JStr ''unknown'')"
  by code_simp

text \<open>
  Claim C2, amended. Every record in the final output has a truthy latitude and a truthy
  longitude: neither is absent, \<open>null\<close> or the empty string; and an inspection row whose
  latitude or longitude is falsy never appears in the output. Whether a non-empty
  coordinate is numeric is not checked.
\<close>

theorem processData_geo:
  assumes "processData this rnd ds y = Inr (out, after)"
  shows "(\<forall>e \<in> set out.
            truthy (get (dinesafe e) ''Latitude'') \<and> truthy (get (dinesafe e) ''Longitude'')
            \<and> get (dinesafe e) ''Latitude'' \<notin> {JUndefined, JNull, JStr []}
            \<and> get (dinesafe e) ''Longitude'' \<notin> {JUndefined, JNull, JStr []})
         \<and> (\<forall>d. \<not> truthy (get d ''Latitude'') \<or> \<not> truthy (get d ''Longitude'')
                \<longrightarrow> d \<notin> dinesafe ` set out)"
proof -
  have geo: "truthy (get (dinesafe e) ''Latitude'') \<and> truthy (get (dinesafe e) ''Longitude'')"
    if "e \<in> set out" for e
    using processData_member [OF assms that] by (auto simp: hasGeo_def)
  have "v \<notin> {JUndefined, JNull, JStr []}" if "truthy v" for v
    using that by auto
  with geo show ?thesis by blast
qed

theorem processData_geo_witness:
  "processData new_DataLoader rnd_zero
       [exampleRow ''Cafe'' ''43.65'' ''-79.38'', exampleRow ''Bistro'' [] ''-79.40''] (YelpRows [])
     = Inr ([exampleRecord ''Cafe'' ''43.65'' ''-79.38'' MUndefined], YelpRows [])
   \<and> truthy (get (dinesafe (exampleRecord ''Cafe'' ''43.65'' ''-79.38'' MUndefined)) ''Latitude'')
   \<and> exampleRow ''Bistro'' [] ''-79.40''
         \<notin> dinesafe ` set [exampleRecord ''Cafe'' ''43.65'' ''-79.38'' MUndefined]"
proof -
  have run: "processData new_DataLoader rnd_zero
       [exampleRow ''Cafe'' ''43.65'' ''-79.38'', exampleRow ''Bistro'' [] ''-79.40''] (YelpRows [])
     = Inr ([exampleRecord ''Cafe'' ''43.65'' ''-79.38'' MUndefined], YelpRows [])"
    by code_simp
  have "\<not> truthy (get (exampleRow ''Bistro'' [] ''-79.40'') ''Latitude'')"
    by (simp add: exampleRow_def get_def)
  with processData_geo [OF run] run show ?thesis by simp
qed




lemma lookupMatch_row:
  assumes "buildLookup rows Map.empty = Inr m" and "lookupMatch m d = Inr (MRow r)"
  shows "r \<in> set rows"
proof -
  from assms(2) obtain key where "m key = Some r"
    by (auto simp: lookupMatch_def split: if_splits sum.splits option.splits)
  with buildLookup_find [OF assms(1), of key] have "find (hasKey key) rows = Some r"
    by simp
  then show ?thesis
    by (auto simp: find_Some_iff)
qed

lemma processData_matched_row:
  assumes "processData this rnd ds y = Inr (out, after)" and "e \<in> set out"
    and "yelpMatch e = MRow r"
  shows "r \<in> synthesize ` set (yelpRows y)"
proof -
  from assms(1,2) obtain m where m:
    "buildLookup (map synthesize (yelpRows y)) Map.empty = Inr m"
    "enrich m (dinesafe e) = Inr e"
    by (rule processData_member)
  from enrich_Inr(2) [OF m(2)] assms(3) have "lookupMatch m (dinesafe e) = Inr (MRow r)"
    by simp
  from lookupMatch_row [OF m(1) this] show ?thesis by simp
qed

lemma processData_after:
  "processData this rnd ds y = Inr (out, after) \<Longrightarrow>
     after = (case y of YelpRows ys \<Rightarrow> YelpRows (map synthesize ys) | NotArray v \<Rightarrow> NotArray v)"
  by (erule processData_Inr)



text \<open>
  Claim C10. The synthesis step of \<open>processData\<close> overwrites \<open>num_of_reviews\<close> exactly
  when \<open>avg_rating\<close> is falsy (absent, 0, the empty string), whatever value the row
  carried; when \<open>avg_rating\<close> is truthy the row is left as it is, so a missing
  \<open>num_of_reviews\<close> stays missing. Every run of \<open>processData\<close> that returns leaves each
  review row in its synthesised form, and the join hands out these rows: a matched record
  receives the synthesised form of the first row with its key.
\<close>

theorem synthesize_overwrites_reviews:
  "(\<not> truthy (get d ''avg_rating'') \<longrightarrow>
      get (synthesize d) ''num_of_reviews'' =
        (case nameLength d of Some nl \<Rightarrow> JNum (of_nat (5 + nl mod 100)) | None \<Rightarrow> JNaN))
   \<and> (truthy (get d ''avg_rating'') \<longrightarrow> synthesize d = d)
   \<and> (truthy (get d ''avg_rating'') \<and> get d ''num_of_reviews'' = JUndefined \<longrightarrow>
      get (synthesize d) ''num_of_reviews'' = JUndefined)
   \<and> (\<forall>this rnd ds ys out after.
        processData this rnd ds (YelpRows ys) = Inr (out, after) \<longrightarrow>
          after = YelpRows (map synthesize ys)
          \<and> (\<forall>e \<in> set out. \<forall>r. yelpMatch e = MRow r \<longrightarrow> r \<in> synthesize ` set ys)
          \<and> (\<forall>e \<in> set out. \<forall>name.
                get (dinesafe e) ''Establishment Name'' = JStr name \<and> name \<noteq> [] \<longrightarrow>
                yelpMatch e =
                  (case find (hasKey (toLowerCase (trim name))) ys of
                     None \<Rightarrow> MUndefined
                   | Some r \<Rightarrow> MRow (synthesize r))))"
proof (intro conjI allI impI ballI)
  assume "\<not> truthy (get d ''avg_rating'')"
  then show "get (synthesize d) ''num_of_reviews'' =
        (case nameLength d of Some nl \<Rightarrow> JNum (of_nat (5 + nl mod 100)) | None \<Rightarrow> JNaN)"
    by (rule synthesize_falsy(2))
next
  assume "truthy (get d ''avg_rating'')"
  then show "synthesize d = d" by (rule synthesize_truthy)
next
  assume "truthy (get d ''avg_rating'') \<and> get d ''num_of_reviews'' = JUndefined"
  then show "get (synthesize d) ''num_of_reviews'' = JUndefined"
    by (simp add: synthesize_truthy)
next
  fix this rnd ds ys out after
  assume run: "processData this rnd ds (YelpRows ys) = Inr (out, after)"
  from processData_after [OF run] show "after = YelpRows (map synthesize ys)" by simp
  {
    fix e r assume "e \<in> set out" and "yelpMatch e = MRow r"
    with run have "r \<in> synthesize ` set (yelpRows (YelpRows ys))"
      by (rule processData_matched_row)
    then show "r \<in> synthesize ` set ys" by (simp add: yelpRows_def)
  }
  {
    fix e name
    assume e: "e \<in> set out"
      and name: "get (dinesafe e) ''Establishment Name'' = JStr name \<and> name \<noteq> []"
    let ?key = "toLowerCase (trim name)"
    from run e obtain m where m:
      "buildLookup (map synthesize (yelpRows (YelpRows ys))) Map.empty = Inr m"
      "enrich m (dinesafe e) = Inr e"
      by (rule processData_member)
    from m(1) have "m ?key = find (hasKey ?key) (map synthesize ys)"
      by (simp add: buildLookup_find [of _ Map.empty m ?key] yelpRows_def)
    then have look: "m ?key = map_option synthesize (find (hasKey ?key) ys)"
      by (simp only: find_hasKey_synthesize)
    from enrich_Inr(2) [OF m(2)] have "lookupMatch m (dinesafe e) = Inr (yelpMatch e)" .
    then have "yelpMatch e = (case m ?key of None \<Rightarrow> MUndefined | Some r \<Rightarrow> MRow r)"
      using name by (simp add: lookupMatch_def normalize_def)
    with look show "yelpMatch e =
        (case find (hasKey ?key) ys of None \<Rightarrow> MUndefined | Some r \<Rightarrow> MRow (synthesize r))"
      by (simp split: option.splits)
  }
qed

theorem synthesize_overwrites_reviews_witness:
  "\<not> truthy (get [(''Restaurant Name'', JStr ''Abc''), (''avg_rating'', JNum 0),
                   (''num_of_reviews'', JStr ''250'')] ''avg_rating'')
   \<and> truthy (get (exampleReview ''cafe'' ''4.5'') ''avg_rating'')
   \<and> get (exampleReview ''cafe'' ''4.5'') ''num_of_reviews'' = JUndefined
   \<and> processData new_DataLoader rnd_zero
         [exampleRow ''Abc'' ''43.65'' ''-79.38'', exampleRow ''Cafe'' ''43.70'' ''-79.40'']
         (YelpRows [[(''Restaurant Name'', JStr ''Abc''), (''avg_rating'', JNum 0),
                     (''num_of_reviews'', JStr ''250'')],
                    exampleReview ''cafe'' ''4.5''])
       = Inr ([exampleRecord ''Abc'' ''43.65'' ''-79.38''
                 (MRow [(''Restaurant Name'', JStr ''Abc''), (''avg_rating'', JStr ''3.3''),
                        (''num_of_reviews'', JNum 8)]),
               exampleRecord ''Cafe'' ''43.70'' ''-79.40'' (MRow (exampleReview ''cafe'' ''4.5''))],
              YelpRows [[(''Restaurant Name'', JStr ''Abc''), (''avg_rating'', JStr ''3.3''),
                         (''num_of_reviews'', JNum 8)],
                        exampleReview ''cafe'' ''4.5''])
   \<and> YelpRows (map synthesize [[(''Restaurant Name'', JStr ''Abc''), (''avg_rating'', JNum 0),
                                  (''num_of_reviews'', JStr ''250'')],
                                 exampleReview ''cafe'' ''4.5''])
       = YelpRows [[(''Restaurant Name'', JStr ''Abc''), (''avg_rating'', JStr ''3.3''),
                    (''num_of_reviews'', JNum 8)],
                   exampleReview ''cafe'' ''4.5'']
   \<and> get (synthesize [(''Restaurant Name'', JStr ''Abc''), (''avg_rating'', JNum 0),
                       (''num_of_reviews'', JStr ''250'')]) ''num_of_reviews'' = JNum 8
   \<and> get (synthesize (exampleReview ''cafe'' ''4.5'')) ''num_of_reviews'' = JUndefined"
proof -
  let ?d = "[(''Restaurant Name'', JStr ''Abc''), (''avg_rating'', JNum 0),
             (''num_of_reviews'', JStr ''250'')]"
  let ?d' = "exampleReview ''cafe'' ''4.5''"
  let ?s = "[(''Restaurant Name'', JStr ''Abc''), (''avg_rating'', JStr ''3.3''),
             (''num_of_reviews'', JNum 8)]"
  let ?ds = "[exampleRow ''Abc'' ''43.65'' ''-79.38'', exampleRow ''Cafe'' ''43.70'' ''-79.40'']"
  let ?out = "[exampleRecord ''Abc'' ''43.65'' ''-79.38'' (MRow ?s),
               exampleRecord ''Cafe'' ''43.70'' ''-79.40'' (MRow ?d')]"
  have a: "\<not> truthy (get ?d ''avg_rating'')" by (simp add: get_def)
  have nl: "nameLength ?d = Some 3" by (simp add: nameLength_def get_def)
  have b: "truthy (get ?d' ''avg_rating'')" by (simp add: exampleReview_def get_def)
  have c: "get ?d' ''num_of_reviews'' = JUndefined" by (simp add: exampleReview_def get_def)
  have run: "processData new_DataLoader rnd_zero ?ds (YelpRows [?d, ?d'])
      = Inr (?out, YelpRows [?s, ?d'])"
    by code_simp
  note i1 = synthesize_overwrites_reviews [of ?d, THEN conjunct1, rule_format, OF a]
  have n1: "get (synthesize ?d) ''num_of_reviews'' = JNum 8"
    using i1 by (simp only: nl option.case) simp
  have both: "truthy (get ?d' ''avg_rating'') \<and> get ?d' ''num_of_reviews'' = JUndefined"
    using b c by (simp only: simp_thms)
  have n2: "get (synthesize ?d') ''num_of_reviews'' = JUndefined"
    by (rule synthesize_overwrites_reviews [of ?d', THEN conjunct2, THEN conjunct2, THEN conjunct1,
          rule_format, OF both])
  have "YelpRows [?s, ?d'] = YelpRows (map synthesize [?d, ?d'])"
    by (rule synthesize_overwrites_reviews [of ?d, THEN conjunct2, THEN conjunct2, THEN conjunct2,
          rule_format, OF run, THEN conjunct1])
  then have after: "YelpRows (map synthesize [?d, ?d']) = YelpRows [?s, ?d']"
    by (rule sym)
  from a b c run after n1 n2 show ?thesis by (simp only: simp_thms)
qed

lemma find_first_index:
  assumes "i < length xs" and "P (xs ! i)" and "\<forall>k<i. \<not> P (xs ! k)"
  shows "find P xs = Some (xs ! i)"
  using assms by (auto simp: find_Some_iff)

text \<open>
  Claim C5. An output record whose establishment has a name receives the first review row,
  in input order, whose normalised name equals the establishment's normalised name (and
  nothing when there is none); when two or more rows share that key, the one at the
  earliest index is the one received.
\<close>

theorem join_first_wins:
  assumes "processData this rnd ds (YelpRows ys) = Inr (out, after)" and "e \<in> set out"
    and "get (dinesafe e) ''Establishment Name'' = JStr name" and "name \<noteq> []"
  shows "yelpMatch e =
           (case find (hasKey (toLowerCase (trim name))) ys of
              None \<Rightarrow> MUndefined
            | Some r \<Rightarrow> MRow (synthesize r))
         \<and> (\<forall>i j. i < j \<and> j < length ys
                \<and> hasKey (toLowerCase (trim name)) (ys ! i)
                \<and> hasKey (toLowerCase (trim name)) (ys ! j)
                \<and> (\<forall>k<i. \<not> hasKey (toLowerCase (trim name)) (ys ! k))
              \<longrightarrow> yelpMatch e = MRow (synthesize (ys ! i)))"
proof -
  let ?key = "toLowerCase (trim name)"
  from assms(1,2) obtain m where m:
    "buildLookup (map synthesize (yelpRows (YelpRows ys))) Map.empty = Inr m"
    "enrich m (dinesafe e) = Inr e"
    by (rule processData_member)
  from m(1) have "m ?key = find (hasKey ?key) (map synthesize ys)"
    by (simp add: buildLookup_find [of _ Map.empty m ?key] yelpRows_def)
  then have look: "m ?key = map_option synthesize (find (hasKey ?key) ys)"
    by (simp only: find_hasKey_synthesize)
  from enrich_Inr(2) [OF m(2)] have "lookupMatch m (dinesafe e) = Inr (yelpMatch e)" .
  then have "yelpMatch e = (case m ?key of None \<Rightarrow> MUndefined | Some r \<Rightarrow> MRow r)"
    using assms(3,4) by (simp add: lookupMatch_def normalize_def)
  with look have first: "yelpMatch e =
      (case find (hasKey ?key) ys of None \<Rightarrow> MUndefined | Some r \<Rightarrow> MRow (synthesize r))"
    by (simp split: option.splits)
  have "yelpMatch e = MRow (synthesize (ys ! i))"
    if "i < j \<and> j < length ys \<and> hasKey ?key (ys ! i) \<and> hasKey ?key (ys ! j)
        \<and> (\<forall>k<i. \<not> hasKey ?key (ys ! k))" for i j
  proof -
    from that have "find (hasKey ?key) ys = Some (ys ! i)"
      by (intro find_first_index) auto
    with first show ?thesis by simp
  qed
  with first show ?thesis by blast
qed

theorem join_first_wins_witness:
  "processData new_DataLoader rnd_zero [exampleRow ''Cafe'' ''43.65'' ''-79.38'']
       (YelpRows [exampleReview '' CAFE'' ''4.5'', exampleReview ''cafe'' ''2.0''])
     = Inr ([exampleRecord ''Cafe'' ''43.65'' ''-79.38'' (MRow (exampleReview '' CAFE'' ''4.5''))],
            YelpRows [exampleReview '' CAFE'' ''4.5'', exampleReview ''cafe'' ''2.0''])
   \<and> toLowerCase (trim ''Cafe'') = ''cafe''
   \<and> hasKey ''cafe'' (exampleReview '' CAFE'' ''4.5'')
   \<and> hasKey ''cafe'' (exampleReview ''cafe'' ''2.0'')
   \<and> yelpMatch (exampleRecord ''Cafe'' ''43.65'' ''-79.38'' (MRow (exampleReview '' CAFE'' ''4.5'')))
       = MRow (synthesize ([exampleReview '' CAFE'' ''4.5'', exampleReview ''cafe'' ''2.0''] ! 0))"
proof -
  let ?ys = "[exampleReview '' CAFE'' ''4.5'', exampleReview ''cafe'' ''2.0'']"
  let ?e = "exampleRecord ''Cafe'' ''43.65'' ''-79.38'' (MRow (exampleReview '' CAFE'' ''4.5''))"
  have run: "processData new_DataLoader rnd_zero [exampleRow ''Cafe'' ''43.65'' ''-79.38'']
       (YelpRows ?ys) = Inr ([?e], YelpRows ?ys)"
    by code_simp
  have key: "toLowerCase (trim ''Cafe'') = ''cafe''" by code_simp
  have k0: "hasKey ''cafe'' (exampleReview '' CAFE'' ''4.5'')" by code_simp
  have k1: "hasKey ''cafe'' (exampleReview ''cafe'' ''2.0'')" by code_simp
  have name: "get (dinesafe ?e) ''Establishment Name'' = JStr ''Cafe''"
    by (simp add: exampleRecord_def exampleRow_def get_def)
  have mem: "?e \<in> set [?e]" by simp
  have ne: "''Cafe'' \<noteq> []" by simp
  from join_first_wins [OF run mem name ne]
  have "\<forall>i j. i < j \<and> j < length ?ys
                \<and> hasKey (toLowerCase (trim ''Cafe'')) (?ys ! i)
                \<and> hasKey (toLowerCase (trim ''Cafe'')) (?ys ! j)
                \<and> (\<forall>k<i. \<not> hasKey (toLowerCase (trim ''Cafe'')) (?ys ! k))
              \<longrightarrow> yelpMatch ?e = MRow (synthesize (?ys ! i))"
    by (rule conjunct2)
  then have "(0::nat) < 1 \<and> 1 < length ?ys
                \<and> hasKey (toLowerCase (trim ''Cafe'')) (?ys ! 0)
                \<and> hasKey (toLowerCase (trim ''Cafe'')) (?ys ! 1)
                \<and> (\<forall>k<0::nat. \<not> hasKey (toLowerCase (trim ''Cafe'')) (?ys ! k))
              \<longrightarrow> yelpMatch ?e = MRow (synthesize (?ys ! 0))"
    by blast
  then have "yelpMatch ?e = MRow (synthesize (?ys ! 0))"
    using k0 k1 by (simp add: key)
  with run key k0 k1 show ?thesis by (simp only: simp_thms)
qed

lemma getWorstSeverity_total:
  "severityOf d = Some text \<Longrightarrow> \<exists>w. getWorstSeverity d = Inr w"
  by (simp add: getWorstSeverity_def severityText_severityOf)

lemma lookupMatch_total:
  assumes "case get d ''Establishment Name'' of JStr s \<Rightarrow> True | v \<Rightarrow> \<not> truthy v"
  shows "\<exists>x. lookupMatch m d = Inr x"
  using assms
  by (cases "get d ''Establishment Name''") (simp_all add: lookupMatch_def normalize_def)

lemma enrich_total:
  assumes "wellTypedInspection d"
  shows "\<exists>e. enrich m d = Inr e"
proof -
  from assms obtain t where sev: "severityOf d = Some t"
    by (auto simp: wellTypedInspection_def)
  from assms obtain x where x: "lookupMatch m d = Inr x"
    using lookupMatch_total [of d m] by (auto simp: wellTypedInspection_def)
  from calculateHealthScore_eq [OF sev] obtain h where h: "calculateHealthScore d = Inr h"
    by blast
  from getWorstSeverity_total [OF sev] obtain w where w: "getWorstSeverity d = Inr w"
    by blast
  show ?thesis by (simp add: enrich_def x h w)
qed

lemma set_restaurantsOnly: "set (restaurantsOnly this ds) \<subseteq> set ds"
  by (auto simp: restaurantsOnly_def)

lemma sampled_subset:
  assumes "randomSource rnd"
  shows "set (randomSample rnd (restaurantsOnly this ds) (SAMPLE_SIZE this)) \<subseteq> set ds"
  using set_randomSample [OF assms, of "restaurantsOnly this ds" "SAMPLE_SIZE this"]
    set_restaurantsOnly [of this ds] by blast

lemma processData_total:
  assumes "randomSource rnd" and "\<forall>d \<in> set ds. wellTypedInspection d"
    and "buildLookup (map synthesize (yelpRows y)) Map.empty = Inr m"
  shows "\<exists>out after. processData this rnd ds y = Inr (out, after)"
proof -
  let ?sampled = "randomSample rnd (restaurantsOnly this ds) (SAMPLE_SIZE this)"
  have "\<forall>d \<in> set ?sampled. \<exists>e. enrich m d = Inr e"
    using sampled_subset [OF assms(1), of this ds] assms(2) by (blast intro: enrich_total)
  then obtain merged where "mapE (enrich m) ?sampled = Inr merged"
    using mapE_total by blast
  then show ?thesis
    by (simp add: processData_def Let_def assms(3))
qed

lemma lookupMatch_empty:
  "lookupMatch Map.empty d = Inr x \<Longrightarrow> x = MNull \<or> x = MUndefined"
  by (auto simp: lookupMatch_def split: if_splits sum.splits)

text \<open>
  Claim C9. When the review data set is not an array, \<open>processData\<close> behaves exactly as
  with an empty review array: the same output (or the same failure), no record has a
  matched review, and the malformed argument is left as it was. With well-typed inspection
  rows it does not fail.
\<close>

theorem processData_not_array:
  "processData this rnd ds (NotArray v) =
     (case processData this rnd ds (YelpRows []) of
        Inl err \<Rightarrow> Inl err
      | Inr (out, after) \<Rightarrow> Inr (out, NotArray v))
   \<and> (\<forall>out after. processData this rnd ds (NotArray v) = Inr (out, after) \<longrightarrow>
        (\<forall>e \<in> set out. yelpMatch e = MNull \<or> yelpMatch e = MUndefined))
   \<and> (randomSource rnd \<and> (\<forall>d \<in> set ds. wellTypedInspection d) \<longrightarrow>
        (\<exists>out. processData this rnd ds (NotArray v) = Inr (out, NotArray v)))"
proof (intro conjI allI impI)
  show "processData this rnd ds (NotArray v) =
     (case processData this rnd ds (YelpRows []) of
        Inl err \<Rightarrow> Inl err
      | Inr (out, after) \<Rightarrow> Inr (out, NotArray v))"
    by (simp add: processData_def yelpRows_def Let_def split: sum.splits)
next
  fix out after
  assume run: "processData this rnd ds (NotArray v) = Inr (out, after)"
  show "\<forall>e \<in> set out. yelpMatch e = MNull \<or> yelpMatch e = MUndefined"
  proof
    fix e assume "e \<in> set out"
    with run obtain m where m:
      "buildLookup (map synthesize (yelpRows (NotArray v))) Map.empty = Inr m"
      "enrich m (dinesafe e) = Inr e"
      by (rule processData_member)
    from m(1) have "m = Map.empty" by (simp add: yelpRows_def)
    with enrich_Inr(2) [OF m(2)] show "yelpMatch e = MNull \<or> yelpMatch e = MUndefined"
      by (simp add: lookupMatch_empty)
  qed
next
  assume h: "randomSource rnd \<and> (\<forall>d \<in> set ds. wellTypedInspection d)"
  have "buildLookup (map synthesize (yelpRows (NotArray v))) Map.empty = Inr Map.empty"
    by (simp add: yelpRows_def)
  with h obtain out after where run: "processData this rnd ds (NotArray v) = Inr (out, after)"
    using processData_total by blast
  from processData_after [OF run] have "after = NotArray v" by simp
  with run show "\<exists>out. processData this rnd ds (NotArray v) = Inr (out, NotArray v)"
    by blast
qed

theorem processData_not_array_witness:
  "randomSource rnd_zero
   \<and> wellTypedInspection (exampleRow ''Cafe'' ''43.65'' ''-79.38'')
   \<and> processData new_DataLoader rnd_zero [exampleRow ''Cafe'' ''43.65'' ''-79.38''] (NotArray JNull)
       = Inr ([exampleRecord ''Cafe'' ''43.65'' ''-79.38'' MUndefined], NotArray JNull)
   \<and> processData new_DataLoader rnd_zero [exampleRow ''Cafe'' ''43.65'' ''-79.38''] (YelpRows [])
       = Inr ([exampleRecord ''Cafe'' ''43.65'' ''-79.38'' MUndefined], YelpRows [])"
proof -
  let ?ds = "[exampleRow ''Cafe'' ''43.65'' ''-79.38'']"
  have wt: "wellTypedInspection (exampleRow ''Cafe'' ''43.65'' ''-79.38'')"
    by (simp add: wellTypedInspection_def severityOf_def exampleRow_def get_def)
  then have wts: "\<forall>d \<in> set ?ds. wellTypedInspection d" by simp
  have empty: "processData new_DataLoader rnd_zero ?ds (YelpRows [])
       = Inr ([exampleRecord ''Cafe'' ''43.65'' ''-79.38'' MUndefined], YelpRows [])"
    by code_simp
  note inst = processData_not_array [of new_DataLoader rnd_zero ?ds JNull]
  from inst have "processData new_DataLoader rnd_zero ?ds (NotArray JNull) =
     (case processData new_DataLoader rnd_zero ?ds (YelpRows []) of
        Inl err \<Rightarrow> Inl err
      | Inr (out, after) \<Rightarrow> Inr (out, NotArray JNull))"
    by (rule conjunct1)
  then have run: "processData new_DataLoader rnd_zero ?ds (NotArray JNull)
       = Inr ([exampleRecord ''Cafe'' ''43.65'' ''-79.38'' MUndefined], NotArray JNull)"
    by (simp only: empty sum.case prod.case)
  from inst randomSource_rnd_zero wts
  have "\<exists>out. processData new_DataLoader rnd_zero ?ds (NotArray JNull) = Inr (out, NotArray JNull)"
    by blast
  with randomSource_rnd_zero wt empty run show ?thesis by (simp only: simp_thms)
qed

text \<open>
  Claim C4, as stated, fails: a review row without a rating is written by the pipeline, which
  leaves it with an \<open>avg_rating\<close> and a \<open>num_of_reviews\<close> it did not have.
\<close>

theorem processData_writes_reviews_counterexample:
  "processData new_DataLoader rnd_zero [] (YelpRows [[(''Restaurant Name'', JStr ''Abc'')]])
     = Inr ([], YelpRows [[(''Restaurant Name'', JStr ''Abc''), (''avg_rating'', JStr ''3.3''),
                           (''num_of_reviews'', JNum 8)]])
   \<and> YelpRows [[(''Restaurant Name'', JStr ''Abc''), (''avg_rating'', JStr ''3.3''),
                 (''num_of_reviews'', JNum 8)]]
       \<noteq> YelpRows [[(''Restaurant Name'', JStr ''Abc'')]]
   \<and> get [(''Restaurant Name'', JStr ''Abc''), (''avg_rating'', JStr ''3.3''),
           (''num_of_reviews'', JNum 8)] ''avg_rating''
       \<noteq> get [(''Restaurant Name'', JStr ''Abc'')] ''avg_rating''"
  by code_simp

lemma processData_copies:
  assumes "randomSource rnd" and "processData this rnd ds y = Inr (out, after)" and "e \<in> set out"
  shows "dinesafe e \<in> set ds"
proof -
  from assms(2,3)
  have "dinesafe e \<in> set (randomSample rnd (restaurantsOnly this ds) (SAMPLE_SIZE this))"
    by (rule processData_member)
  with sampled_subset [OF assms(1), of this ds] show ?thesis by blast
qed

text \<open>
  Claim C4, amended. The only effect of \<open>processData\<close> on its arguments is the rating
  synthesis on the review rows: after the call each review row is its synthesised form,
  which differs from the row only in \<open>avg_rating\<close> and \<open>num_of_reviews\<close>, and only when
  \<open>avg_rating\<close> was falsy; a review argument that is not an array, and a review array
  whose rows all carry a rating, are unchanged. The inspection rows are not written: each
  output record carries a copy of one of them.
\<close>

theorem processData_frame:
  assumes "processData this rnd ds y = Inr (out, after)"
  shows "after = (case y of YelpRows ys \<Rightarrow> YelpRows (map synthesize ys) | NotArray v \<Rightarrow> NotArray v)
         \<and> (\<forall>r. truthy (get r ''avg_rating'') \<longrightarrow> synthesize r = r)
         \<and> (\<forall>r k. k \<noteq> ''avg_rating'' \<and> k \<noteq> ''num_of_reviews'' \<longrightarrow>
               get (synthesize r) k = get r k)
         \<and> (\<forall>ys. y = YelpRows ys \<and> (\<forall>r \<in> set ys. truthy (get r ''avg_rating'')) \<longrightarrow> after = y)
         \<and> (randomSource rnd \<longrightarrow> (\<forall>e \<in> set out. dinesafe e \<in> set ds))"
proof (intro conjI allI impI ballI)
  show after: "after =
      (case y of YelpRows ys \<Rightarrow> YelpRows (map synthesize ys) | NotArray v \<Rightarrow> NotArray v)"
    using assms by (rule processData_after)
  fix ys assume h: "y = YelpRows ys \<and> (\<forall>r \<in> set ys. truthy (get r ''avg_rating''))"
  then have "map synthesize ys = ys"
    by (simp add: map_idI synthesize_truthy)
  with after h show "after = y" by simp
next
  fix r assume "truthy (get r ''avg_rating'')"
  then show "synthesize r = r" by (rule synthesize_truthy)
next
  fix r k assume "k \<noteq> ''avg_rating'' \<and> k \<noteq> ''num_of_reviews''"
  then show "get (synthesize r) k = get r k" by (simp add: get_synthesize_other)
next
  fix e assume "randomSource rnd" and "e \<in> set out"
  with assms show "dinesafe e \<in> set ds" by (blast intro: processData_copies)
qed

theorem processData_frame_witness:
  "randomSource rnd_zero
   \<and> processData new_DataLoader rnd_zero [exampleRow ''Cafe'' ''43.65'' ''-79.38'']
       (YelpRows [exampleReview ''cafe'' ''4.5'', [(''Restaurant Name'', JStr ''Abc''), (''price'', JStr ''$'')]])
     = Inr ([exampleRecord ''Cafe'' ''43.65'' ''-79.38'' (MRow (exampleReview ''cafe'' ''4.5''))],
            YelpRows [exampleReview ''cafe'' ''4.5'',
                      [(''Restaurant Name'', JStr ''Abc''), (''price'', JStr ''$''),
                       (''avg_rating'', JStr ''3.3''), (''num_of_reviews'', JNum 8)]])
   \<and> synthesize (exampleReview ''cafe'' ''4.5'') = exampleReview ''cafe'' ''4.5''
   \<and> get (synthesize [(''Restaurant Name'', JStr ''Abc''), (''price'', JStr ''$'')]) ''price'' = JStr ''$''
   \<and> dinesafe (exampleRecord ''Cafe'' ''43.65'' ''-79.38'' (MRow (exampleReview ''cafe'' ''4.5'')))
       \<in> set [exampleRow ''Cafe'' ''43.65'' ''-79.38'']"
proof -
  let ?ds = "[exampleRow ''Cafe'' ''43.65'' ''-79.38'']"
  let ?ys = "[exampleReview ''cafe'' ''4.5'', [(''Restaurant Name'', JStr ''Abc''), (''price'', JStr ''$'')]]"
  let ?e = "exampleRecord ''Cafe'' ''43.65'' ''-79.38'' (MRow (exampleReview ''cafe'' ''4.5''))"
  let ?after = "YelpRows [exampleReview ''cafe'' ''4.5'',
                      [(''Restaurant Name'', JStr ''Abc''), (''price'', JStr ''$''),
                       (''avg_rating'', JStr ''3.3''), (''num_of_reviews'', JNum 8)]]"
  have run: "processData new_DataLoader rnd_zero ?ds (YelpRows ?ys) = Inr ([?e], ?after)"
    by code_simp
  note inst = processData_frame [OF run]
  have t: "truthy (get (exampleReview ''cafe'' ''4.5'') ''avg_rating'')"
    by (simp add: exampleReview_def get_def)
  have a: "synthesize (exampleReview ''cafe'' ''4.5'') = exampleReview ''cafe'' ''4.5''"
    by (rule inst [THEN conjunct2, THEN conjunct1, rule_format, OF t])
  have k: "''price'' \<noteq> ''avg_rating'' \<and> ''price'' \<noteq> ''num_of_reviews''" by simp
  have "get (synthesize [(''Restaurant Name'', JStr ''Abc''), (''price'', JStr ''$'')]) ''price''
      = get [(''Restaurant Name'', JStr ''Abc''), (''price'', JStr ''$'')] ''price''"
    by (rule inst [THEN conjunct2, THEN conjunct2, THEN conjunct1, rule_format, OF k])
  then have b: "get (synthesize [(''Restaurant Name'', JStr ''Abc''), (''price'', JStr ''$'')]) ''price'' = JStr ''$''"
    by (simp add: get_def)
  have mem: "?e \<in> set [?e]" by simp
  have c: "dinesafe ?e \<in> set ?ds"
    by (rule inst [THEN conjunct2, THEN conjunct2, THEN conjunct2, THEN conjunct2, rule_format,
          OF randomSource_rnd_zero mem])
  from randomSource_rnd_zero run a b c show ?thesis by (simp only: simp_thms)
qed

section \<open>Determinism of the pipeline\<close>

lemma mapE_replicate: "f x = Inr y \<Longrightarrow> mapE f (replicate k x) = Inr (replicate k y)"
  by (induction k) simp_all

lemma shuffleFrom_keep_all:
  assumes "\<forall>k. rnd k = 0"
  shows "shuffleFrom rnd n 0 xs = xs"
  using assms by (simp add: shuffleFrom_zero)

lemma shuffleFrom_swap_last:
  assumes "0 < n" and "length xs = Suc n"
    and "rnd 0 = of_nat n / of_nat (Suc n)" and "\<forall>k. 1 \<le> k \<longrightarrow> rnd k = 0"
  shows "shuffleFrom rnd n 0 xs = xs[0 := xs ! n, n := xs ! 0]"
proof -
  have "rnd 0 * of_int (int (length xs) - int 0) = of_nat n"
    by (simp add: assms(2,3))
  then have j: "0 + nat \<lfloor>rnd 0 * of_int (int (length xs) - int 0)\<rfloor> = n"
    by (simp only: floor_of_nat nat_int add_0)
  have "shuffleFrom rnd n 0 xs = shuffleFrom rnd n (0 + 1) (xs[0 := xs ! n, n := xs ! 0])"
    using assms(1) by (subst shuffleFrom.simps) (simp only: j Let_def if_True)
  also have "\<dots> = xs[0 := xs ! n, n := xs ! 0]"
    using assms(4) by (simp add: shuffleFrom_zero)
  finally show ?thesis .
qed

lemma processData_two_runs:
  assumes size: "SAMPLE_SIZE this = Some n" "0 < n"
    and types: "has (RESTAURANT_TYPES this) (get a ''Establishment Type'')"
      "has (RESTAURANT_TYPES this) (get b ''Establishment Type'')"
    and recs: "enrich Map.empty a = Inr ea" "enrich Map.empty b = Inr eb" "hasGeo ea" "hasGeo eb"
  shows "(\<forall>k. rnd k = 0) \<Longrightarrow>
           processData this rnd (a # replicate n b) (YelpRows [])
             = Inr (ea # replicate (n - 1) eb, YelpRows [])"
    and "rnd' 0 = of_nat n / of_nat (Suc n) \<Longrightarrow> (\<forall>k. 1 \<le> k \<longrightarrow> rnd' k = 0) \<Longrightarrow>
           processData this rnd' (a # replicate n b) (YelpRows [])
             = Inr (replicate n eb, YelpRows [])"
proof -
  let ?xs = "a # replicate n b"
  have ro: "restaurantsOnly this ?xs = ?xs"
    using types by (simp add: restaurantsOnly_def)
  have len: "length ?xs = Suc n" by simp
  obtain m where n: "n = Suc m" using size(2) by (cases n) auto
  {
    assume "\<forall>k. rnd k = 0"
    then have "shuffleFrom rnd n 0 ?xs = ?xs" by (rule shuffleFrom_keep_all)
    then have "randomSample rnd ?xs (Some n) = take n ?xs"
      using size(2) by (simp add: randomSample_def)
    also have "\<dots> = a # take m (replicate n b)" by (simp add: n del: replicate_Suc)
    also have "take m (replicate n b) = replicate m b" by (simp add: n del: replicate_Suc)
    finally have s: "randomSample rnd (restaurantsOnly this ?xs) (SAMPLE_SIZE this) = a # replicate m b"
      by (simp only: ro size(1))
    have "mapE (enrich Map.empty) (a # replicate m b) = Inr (ea # replicate m eb)"
      by (simp add: recs(1) mapE_replicate [of "enrich Map.empty" b eb, OF recs(2)])
    then show "processData this rnd ?xs (YelpRows []) = Inr (ea # replicate (n - 1) eb, YelpRows [])"
      unfolding processData_def Let_def s by (simp add: yelpRows_def recs(3,4) n)
  }
  {
    assume r: "rnd' 0 = of_nat n / of_nat (Suc n)" "\<forall>k. 1 \<le> k \<longrightarrow> rnd' k = 0"
    have "shuffleFrom rnd' n 0 ?xs = ?xs[0 := ?xs ! n, n := ?xs ! 0]"
      using size(2) len r by (rule shuffleFrom_swap_last)
    also have "?xs ! n = b" by (simp add: n del: replicate_Suc)
    finally have "shuffleFrom rnd' n 0 ?xs = (b # replicate n b)[n := a]" by simp
    then have "randomSample rnd' ?xs (Some n) = take n ((b # replicate n b)[n := a])"
      using size(2) by (simp add: randomSample_def)
    also have "\<dots> = take n (b # replicate n b)" by (rule take_update_cancel) simp
    also have "\<dots> = take n (replicate (Suc n) b)" by simp
    also have "\<dots> = replicate n b" by (simp only: take_replicate) simp
    finally have s: "randomSample rnd' (restaurantsOnly this ?xs) (SAMPLE_SIZE this) = replicate n b"
      by (simp only: ro size(1))
    have "mapE (enrich Map.empty) (replicate n b) = Inr (replicate n eb)"
      by (rule mapE_replicate [of "enrich Map.empty" b eb, OF recs(2)])
    then show "processData this rnd' ?xs (YelpRows []) = Inr (replicate n eb, YelpRows [])"
      unfolding processData_def Let_def s by (simp add: yelpRows_def recs(4))
  }
qed

lemma randomSource_rnd_swap: "randomSource rnd_swap"
  by (simp add: randomSource_def rnd_swap_def)

text \<open>
  Claim C3, as stated, fails: with 15001 restaurant rows, more than the sample bound, two
  runs of the pipeline on the same raw data give different outputs when \<open>Math.random\<close>
  returns different draws.
\<close>

theorem processData_resampling_counterexample:
  "randomSource rnd_zero \<and> randomSource rnd_swap
   \<and> processData new_DataLoader rnd_zero
         (exampleRow ''A'' ''43.65'' ''-79.38'' # replicate 15000 (exampleRow ''B'' ''43.70'' ''-79.40''))
         (YelpRows [])
       = Inr (exampleRecord ''A'' ''43.65'' ''-79.38'' MUndefined
                # replicate 14999 (exampleRecord ''B'' ''43.70'' ''-79.40'' MUndefined), YelpRows [])
   \<and> processData new_DataLoader rnd_swap
         (exampleRow ''A'' ''43.65'' ''-79.38'' # replicate 15000 (exampleRow ''B'' ''43.70'' ''-79.40''))
         (YelpRows [])
       = Inr (replicate 15000 (exampleRecord ''B'' ''43.70'' ''-79.40'' MUndefined), YelpRows [])
   \<and> exampleRecord ''A'' ''43.65'' ''-79.38'' MUndefined
         # replicate 14999 (exampleRecord ''B'' ''43.70'' ''-79.40'' MUndefined)
       \<noteq> replicate 15000 (exampleRecord ''B'' ''43.70'' ''-79.40'' MUndefined)"
proof -
  let ?a = "exampleRow ''A'' ''43.65'' ''-79.38''"
  let ?b = "exampleRow ''B'' ''43.70'' ''-79.40''"
  let ?ea = "exampleRecord ''A'' ''43.65'' ''-79.38'' MUndefined"
  let ?eb = "exampleRecord ''B'' ''43.70'' ''-79.40'' MUndefined"
  have size: "SAMPLE_SIZE new_DataLoader = Some 15000" "(0::nat) < 15000"
    by (simp_all add: new_DataLoader_def)
  have ta: "has (RESTAURANT_TYPES new_DataLoader) (get ?a ''Establishment Type'')"
    by code_simp
  have tb: "has (RESTAURANT_TYPES new_DataLoader) (get ?b ''Establishment Type'')"
    by code_simp
  have ra: "enrich Map.empty ?a = Inr ?ea" by code_simp
  have rb: "enrich Map.empty ?b = Inr ?eb" by code_simp
  have ga: "hasGeo ?ea" by code_simp
  have gb: "hasGeo ?eb" by code_simp
  have z: "\<forall>k. rnd_zero k = 0" by (simp add: rnd_zero_def)
  have s0: "rnd_swap 0 = of_nat 15000 / of_nat (Suc 15000)" by (simp add: rnd_swap_def)
  have s1: "\<forall>k. 1 \<le> k \<longrightarrow> rnd_swap k = 0" by (simp add: rnd_swap_def)
  have "processData new_DataLoader rnd_zero (?a # replicate 15000 ?b) (YelpRows [])
          = Inr (?ea # replicate (15000 - 1) ?eb, YelpRows [])"
    by (rule processData_two_runs(1) [OF size ta tb ra rb ga gb z])
  then have run1: "processData new_DataLoader rnd_zero (?a # replicate 15000 ?b) (YelpRows [])
          = Inr (?ea # replicate 14999 ?eb, YelpRows [])"
    by simp
  have run2: "processData new_DataLoader rnd_swap (?a # replicate 15000 ?b) (YelpRows [])
          = Inr (replicate 15000 ?eb, YelpRows [])"
    by (rule processData_two_runs(2) [OF size ta tb ra rb ga gb s0 s1])
  have "?ea \<noteq> ?eb" by (simp add: exampleRecord_def exampleRow_def)
  moreover have "replicate 15000 ?eb = ?eb # replicate 14999 ?eb"
  proof -
    have "replicate 15000 ?eb = replicate (Suc 14999) ?eb" by simp
    then show ?thesis by (simp only: replicate_Suc)
  qed
  ultimately have "?ea # replicate 14999 ?eb \<noteq> replicate 15000 ?eb" by simp
  with randomSource_rnd_zero randomSource_rnd_swap run1 run2 show ?thesis
    by (simp only: simp_thms)
qed

lemma shuffleFrom_cong:
  "(\<forall>k. i \<le> k \<and> k < n \<longrightarrow> rnd k = rnd' k) \<Longrightarrow> shuffleFrom rnd n i xs = shuffleFrom rnd' n i xs"
proof (induction rnd n i xs rule: shuffleFrom.induct)
  case (1 rnd n i xs)
  show ?case
  proof (cases "i < n")
    case True
    then have eq: "rnd i = rnd' i" using "1.prems" by simp
    define ys where "ys = xs[i := xs ! (i + nat \<lfloor>rnd i * of_int (int (length xs) - int i)\<rfloor>),
        i + nat \<lfloor>rnd i * of_int (int (length xs) - int i)\<rfloor> := xs ! i]"
    have "shuffleFrom rnd n (i + 1) ys = shuffleFrom rnd' n (i + 1) ys"
      unfolding ys_def using "1.prems" by (intro "1.IH" [OF True refl]) simp
    moreover have "shuffleFrom rnd n i xs = shuffleFrom rnd n (i + 1) ys"
      using True by (subst shuffleFrom.simps) (simp add: Let_def ys_def)
    moreover have "shuffleFrom rnd' n i xs = shuffleFrom rnd' n (i + 1) ys"
      using True by (subst shuffleFrom.simps) (simp add: Let_def ys_def eq)
    ultimately show ?thesis by simp
  next
    case False
    then show ?thesis by (simp add: shuffleFrom.simps [of _ n i])
  qed
qed

lemma randomSample_sameSample:
  assumes "sameSample this ds rnd rnd'"
  shows "randomSample rnd (restaurantsOnly this ds) (SAMPLE_SIZE this)
           = randomSample rnd' (restaurantsOnly this ds) (SAMPLE_SIZE this)"
proof (cases "SAMPLE_SIZE this")
  case None
  then show ?thesis by (simp add: randomSample_def)
next
  case (Some n)
  show ?thesis
  proof (cases "n = 0 \<or> length (restaurantsOnly this ds) \<le> n")
    case True
    then show ?thesis by (auto simp: Some randomSample_def)
  next
    case False
    with assms have "\<forall>k<n. rnd k = rnd' k"
      by (auto simp: sameSample_def Some)
    then have "shuffleFrom rnd n 0 (restaurantsOnly this ds) = shuffleFrom rnd' n 0 (restaurantsOnly this ds)"
      by (intro shuffleFrom_cong) simp
    then show ?thesis by (simp add: Some randomSample_def)
  qed
qed

lemma processData_sameSample:
  "sameSample this ds rnd rnd' \<Longrightarrow> processData this rnd ds y = processData this rnd' ds y"
  by (simp add: processData_def randomSample_sameSample)

lemma jsonRow_clean: "jsonClean d \<Longrightarrow> jsonRow d = d"
  unfolding jsonClean_def jsonRow_def by (induction d) auto

lemma map_jsonRow_clean: "list_all jsonClean ds \<Longrightarrow> map jsonRow ds = ds"
  by (induction ds) (simp_all add: jsonRow_clean)

lemma loadData_fresh:
  assumes "\<not> cacheComplete st" and "3 \<le> quota"
    and "list_all jsonClean ds" and "list_all jsonClean ys"
  shows "fst (loadData this rnd (geo, ds, ys) quota st)
           = mergedResult geo (processData this rnd ds (YelpRows ys))"
    and "snd (loadData this rnd (geo, ds, ys) quota st)
           = st\<lparr>cachedGeoData := Some geo, cachedDinesafeData := Some ds, cachedYelpData := Some ys\<rparr>"
  using assms by (simp_all add: loadData_def cacheRaw_def map_jsonRow_clean)

lemma loadData_cached:
  "fst (loadData this rnd fetched quota
          (st\<lparr>cachedGeoData := Some geo, cachedDinesafeData := Some ds, cachedYelpData := Some ys\<rparr>))
     = mergedResult geo (processData this rnd ds (YelpRows ys))"
  by (simp add: loadData_def cacheComplete_def)

text \<open>
  Claim C3, amended. Two runs of the pipeline on identical raw data give identical output
  whenever they see the same sample, in particular whenever the restaurant rows do not
  exceed the sample bound; and then a run that reads the data back from the session cache
  gives the output of the run that fetched and cached it.
\<close>

theorem pipeline_deterministic:
  assumes "sameSample this ds rnd rnd'"
  shows "processData this rnd ds y = processData this rnd' ds y
         \<and> (\<not> cacheComplete st \<and> 3 \<le> quota \<and> list_all jsonClean ds \<and> list_all jsonClean ys \<longrightarrow>
              fst (loadData this rnd' fetched' quota' (snd (loadData this rnd (geo, ds, ys) quota st)))
                = fst (loadData this rnd (geo, ds, ys) quota st))"
proof (intro conjI impI)
  show "processData this rnd ds y = processData this rnd' ds y"
    using assms by (rule processData_sameSample)
next
  assume h: "\<not> cacheComplete st \<and> 3 \<le> quota \<and> list_all jsonClean ds \<and> list_all jsonClean ys"
  then have fresh: "fst (loadData this rnd (geo, ds, ys) quota st)
           = mergedResult geo (processData this rnd ds (YelpRows ys))"
    and stored: "snd (loadData this rnd (geo, ds, ys) quota st)
           = st\<lparr>cachedGeoData := Some geo, cachedDinesafeData := Some ds, cachedYelpData := Some ys\<rparr>"
    by (simp_all add: loadData_fresh)
  have "fst (loadData this rnd' fetched' quota' (snd (loadData this rnd (geo, ds, ys) quota st)))
      = mergedResult geo (processData this rnd' ds (YelpRows ys))"
    by (simp only: stored loadData_cached)
  also have "\<dots> = mergedResult geo (processData this rnd ds (YelpRows ys))"
    using assms by (simp add: processData_sameSample)
  finally show "fst (loadData this rnd' fetched' quota' (snd (loadData this rnd (geo, ds, ys) quota st)))
                = fst (loadData this rnd (geo, ds, ys) quota st)"
    by (simp only: fresh)
qed

theorem pipeline_deterministic_witness:
  "sameSample new_DataLoader [exampleRow ''Cafe'' ''43.65'' ''-79.38''] rnd_zero rnd_swap
   \<and> \<not> cacheComplete (emptyStorage :: unit sessionStorage)
   \<and> list_all jsonClean [exampleRow ''Cafe'' ''43.65'' ''-79.38'']
   \<and> list_all jsonClean [exampleReview ''cafe'' ''4.5'']
   \<and> fst (loadData new_DataLoader rnd_zero
             ((), [exampleRow ''Cafe'' ''43.65'' ''-79.38''], [exampleReview ''cafe'' ''4.5'']) 3 emptyStorage)
       = Inr ((), [exampleRecord ''Cafe'' ''43.65'' ''-79.38'' (MRow (exampleReview ''cafe'' ''4.5''))])
   \<and> fst (loadData new_DataLoader rnd_swap ((), [], []) 0
             (snd (loadData new_DataLoader rnd_zero
                ((), [exampleRow ''Cafe'' ''43.65'' ''-79.38''], [exampleReview ''cafe'' ''4.5'']) 3
                emptyStorage)))
       = Inr ((), [exampleRecord ''Cafe'' ''43.65'' ''-79.38'' (MRow (exampleReview ''cafe'' ''4.5''))])"
proof -
  let ?ds = "[exampleRow ''Cafe'' ''43.65'' ''-79.38'']"
  let ?ys = "[exampleReview ''cafe'' ''4.5'']"
  let ?st = "emptyStorage :: unit sessionStorage"
  have same: "sameSample new_DataLoader ?ds rnd_zero rnd_swap"
    by (simp add: sameSample_def new_DataLoader_def restaurantsOnly_def)
  have fresh: "\<not> cacheComplete ?st"
    by (simp add: cacheComplete_def emptyStorage_def)
  have c1: "list_all jsonClean ?ds" by code_simp
  have c2: "list_all jsonClean ?ys" by code_simp
  have first: "fst (loadData new_DataLoader rnd_zero ((), ?ds, ?ys) 3 ?st)
       = Inr ((), [exampleRecord ''Cafe'' ''43.65'' ''-79.38'' (MRow (exampleReview ''cafe'' ''4.5''))])"
    by code_simp
  have q: "(3::nat) \<le> 3" by simp
  have "fst (loadData new_DataLoader rnd_swap ((), [], []) 0
             (snd (loadData new_DataLoader rnd_zero ((), ?ds, ?ys) 3 ?st)))
       = fst (loadData new_DataLoader rnd_zero ((), ?ds, ?ys) 3 ?st)"
    using pipeline_deterministic [OF same, THEN conjunct2, rule_format, of ?st 3 ?ys] fresh q c1 c2
    by (simp only: simp_thms)
  with same fresh c1 c2 first show ?thesis by (simp only: simp_thms)
qed

end
